theory Spec2Isabelle
  imports Main
begin

section \<open>Package entity: schema lifecycle of the registered database entities\<close>

text \<open>
  A shallow embedding of \<^verbatim>\<open>internal/entity/entity.go\<close>. The package drives an external
  database through the GORM handle returned by \<^verbatim>\<open>Db()\<close>, writes to a log, sleeps, and
  keeps two process-wide variables (the database provider and a \<^verbatim>\<open>sync.Once\<close>). All of
  that is made explicit: the functions below take the world, and return it updated
  together with the way the Go function ended (it returned, or it panicked).
\<close>

subsection \<open>Data\<close>

text \<open>The type handles stored in the registry (\<^verbatim>\<open>&Account{}\<close>, \<^verbatim>\<open>&File{}\<close>, ...).\<close>

datatype entity =
    Account | File | FileShare | FileSync | Photo | Description | Place | Location
  | Camera | Lens | Country | Album | PhotoAlbum | Label | Category | PhotoLabel
  | Keyword | PhotoKeyword | Link

text \<open>
  \<^verbatim>\<open>type Types map[string]interface{}\<close>. A Go map is ranged over in an order that the
  language leaves open and that may change from one \<^verbatim>\<open>range\<close> statement to the next. A
  value of this type is the map as one \<^verbatim>\<open>range\<close> statement visits it: its entries, keys
  distinct, in visiting order. A function with several \<^verbatim>\<open>range\<close> statements over the
  same map takes one such list for each.
\<close>

type_synonym Types = "(string \<times> entity) list"

text \<open>\<^verbatim>\<open>var Entities = Types{...}\<close>, in the order of the literal.\<close>

definition Entities :: Types where
  "Entities =
    [(''accounts'', Account), (''files'', File), (''files_share'', FileShare),
     (''files_sync'', FileSync), (''photos'', Photo), (''descriptions'', Description),
     (''places'', Place), (''locations'', Location), (''cameras'', Camera),
     (''lenses'', Lens), (''countries'', Country), (''albums'', Album),
     (''photos_albums'', PhotoAlbum), (''labels'', Label), (''categories'', Category),
     (''photos_labels'', PhotoLabel), (''keywords'', Keyword),
     (''photos_keywords'', PhotoKeyword), (''links'', Link)]"

text \<open>A Go \<^verbatim>\<open>error\<close> value; \<^verbatim>\<open>err.Error()\<close> is its message.\<close>

datatype error = Err string

fun Error :: "error \<Rightarrow> string" where
  "Error (Err msg) = msg"

text \<open>The value a panic carries: \<^verbatim>\<open>panic("migration failed")\<close> or \<^verbatim>\<open>panic(err)\<close>.\<close>

datatype panic = PanicString string | PanicError error

text \<open>
  The provider handle \<^verbatim>\<open>Gorm\<close>. The type is declared in another file of the package;
  its fields here are the two that the literal \<^verbatim>\<open>&Gorm{Driver: "mysql", Dsn: dsn}\<close> of
  \<^verbatim>\<open>InitTestDb\<close> sets.
\<close>

record Gorm =
  Driver :: string
  Dsn :: string

text \<open>
  What the package does to the outside, in the order it does it: the calls on the GORM
  handle, the log lines, the sleeps, and the calls of the seed and fixture routines.
  Durations are in nanoseconds, as \<^verbatim>\<open>time.Duration\<close> has them.
\<close>

datatype event =
    AutoMigrateCall entity
  | DropTableIfExistsCall entity
  | RawScanCall string
  | DebugfCall string
  | SleepCall nat
  | CreateUnknownPlaceCall
  | CreateUnknownCountryCall
  | CreateUnknownCameraCall
  | CreateUnknownLensCall
  | CreateTestFixturesCall

text \<open>
  The collaborators, over a database state \<open>'db\<close> of their own. None of them is in
  this file of the package: the GORM handle behind \<^verbatim>\<open>Db()\<close> (\<open>auto_migrate\<close>,
  \<open>drop_table_if_exists\<close>, and \<open>raw_scan\<close> for \<^verbatim>\<open>Raw(sql).Scan(&struct{}{})\<close>, each
  giving the \<^verbatim>\<open>.Error\<close> of its result and the database it leaves), what the database
  does while the caller sleeps (\<open>sleep\<close>), the four seed constructors and the fixture
  routine. They are parameters of the model, and the theorems hold for all of them.
\<close>

record 'db collab =
  auto_migrate :: "entity \<Rightarrow> 'db \<Rightarrow> error option \<times> 'db"
  drop_table_if_exists :: "entity \<Rightarrow> 'db \<Rightarrow> error option \<times> 'db"
  raw_scan :: "string \<Rightarrow> 'db \<Rightarrow> error option \<times> 'db"
  sleep :: "nat \<Rightarrow> 'db \<Rightarrow> 'db"
  create_unknown_place :: "'db \<Rightarrow> 'db"
  create_unknown_country :: "'db \<Rightarrow> 'db"
  create_unknown_camera :: "'db \<Rightarrow> 'db"
  create_unknown_lens :: "'db \<Rightarrow> 'db"
  create_test_fixtures :: "'db \<Rightarrow> 'db"

text \<open>
  The world: the database, the events so far (oldest first), and the two process-wide
  variables, \<^verbatim>\<open>dbProvider\<close> (\<open>None\<close> is \<^verbatim>\<open>nil\<close>) and \<^verbatim>\<open>resetFixturesOnce\<close> (whether the
  \<^verbatim>\<open>sync.Once\<close> has fired).
\<close>

record 'db world =
  db :: 'db
  trace :: "event list"
  dbProvider :: "Gorm option"
  resetFixturesOnce :: bool

text \<open>
  How a call ends: it returns a value in a world, or it panics with a value in a world.
  A panic keeps the world it happened in; nothing is rolled back.
\<close>

datatype ('a, 's) outcome = Returned 'a 's | Panicked panic 's

text \<open>Sequencing of two statements: a panic in the first skips the second.\<close>

fun and_then :: "('a, 's) outcome \<Rightarrow> ('s \<Rightarrow> ('b, 's) outcome) \<Rightarrow> ('b, 's) outcome" where
  "and_then (Returned _ s) f = f s"
| "and_then (Panicked p s) f = Panicked p s"

fun final :: "('a, 's) outcome \<Rightarrow> 's" where
  "final (Returned _ s) = s"
| "final (Panicked _ s) = s"

fun returned :: "('a, 's) outcome \<Rightarrow> bool" where
  "returned (Returned _ _) = True"
| "returned (Panicked _ _) = False"

subsection \<open>Calls on the collaborators\<close>

definition emit :: "event \<Rightarrow> 'db world \<Rightarrow> 'db world" where
  "emit e w = w\<lparr>trace := trace w @ [e]\<rparr>"

definition AutoMigrate :: "'db collab \<Rightarrow> entity \<Rightarrow> 'db world \<Rightarrow> error option \<times> 'db world" where
  "AutoMigrate c e w =
     (case auto_migrate c e (db w) of
        (r, d) \<Rightarrow> (r, emit (AutoMigrateCall e) (w\<lparr>db := d\<rparr>)))"

definition DropTableIfExists :: "'db collab \<Rightarrow> entity \<Rightarrow> 'db world \<Rightarrow> error option \<times> 'db world" where
  "DropTableIfExists c e w =
     (case drop_table_if_exists c e (db w) of
        (r, d) \<Rightarrow> (r, emit (DropTableIfExistsCall e) (w\<lparr>db := d\<rparr>)))"

definition RawScan :: "'db collab \<Rightarrow> string \<Rightarrow> 'db world \<Rightarrow> error option \<times> 'db world" where
  "RawScan c sql w =
     (case raw_scan c sql (db w) of
        (r, d) \<Rightarrow> (r, emit (RawScanCall sql) (w\<lparr>db := d\<rparr>)))"

definition Debugf :: "string \<Rightarrow> 'db world \<Rightarrow> 'db world" where
  "Debugf msg w = emit (DebugfCall msg) w"

definition Millisecond :: nat where
  "Millisecond = 1000000"

definition Sleep :: "'db collab \<Rightarrow> nat \<Rightarrow> 'db world \<Rightarrow> 'db world" where
  "Sleep c t w = emit (SleepCall t) (w\<lparr>db := sleep c t (db w)\<rparr>)"

definition CreateUnknownPlace :: "'db collab \<Rightarrow> 'db world \<Rightarrow> 'db world" where
  "CreateUnknownPlace c w = emit CreateUnknownPlaceCall (w\<lparr>db := create_unknown_place c (db w)\<rparr>)"

definition CreateUnknownCountry :: "'db collab \<Rightarrow> 'db world \<Rightarrow> 'db world" where
  "CreateUnknownCountry c w =
     emit CreateUnknownCountryCall (w\<lparr>db := create_unknown_country c (db w)\<rparr>)"

definition CreateUnknownCamera :: "'db collab \<Rightarrow> 'db world \<Rightarrow> 'db world" where
  "CreateUnknownCamera c w =
     emit CreateUnknownCameraCall (w\<lparr>db := create_unknown_camera c (db w)\<rparr>)"

definition CreateUnknownLens :: "'db collab \<Rightarrow> 'db world \<Rightarrow> 'db world" where
  "CreateUnknownLens c w = emit CreateUnknownLensCall (w\<lparr>db := create_unknown_lens c (db w)\<rparr>)"

definition CreateTestFixtures :: "'db collab \<Rightarrow> 'db world \<Rightarrow> 'db world" where
  "CreateTestFixtures c w =
     emit CreateTestFixturesCall (w\<lparr>db := create_test_fixtures c (db w)\<rparr>)"

subsection \<open>WaitForMigration\<close>

text \<open>\<^verbatim>\<open>fmt.Sprintf("DESCRIBE `%s`", name)\<close>\<close>

definition describe_sql :: "string \<Rightarrow> string" where
  "describe_sql name = ''DESCRIBE `'' @ name @ ''`''"

text \<open>\<^verbatim>\<open>attempts := 100\<close>\<close>

definition attempts :: nat where
  "attempts = 100"

text \<open>
  The inner loop \<^verbatim>\<open>for i := 0; i <= attempts; i++\<close> for one table, from the value \<open>i\<close>
  of its counter on. The bound is a parameter \<open>n\<close>; \<^verbatim>\<open>WaitForMigration\<close> passes
  \<open>attempts\<close>. The counter is a Go \<^verbatim>\<open>int\<close> that stays between 0 and 100, a \<open>nat\<close> here.
\<close>

function WaitForMigration_table ::
  "'db collab \<Rightarrow> nat \<Rightarrow> string \<Rightarrow> nat \<Rightarrow> 'db world \<Rightarrow> (unit, 'db world) outcome" where
  "WaitForMigration_table c n name i w =
     (if i \<le> n then
        (case RawScan c (describe_sql name) w of
           (None, w1) \<Rightarrow> Returned () (Debugf (''entity: table '' @ name @ '' migrated'') w1)
         | (Some err, w1) \<Rightarrow>
             (if i = n then Panicked (PanicString ''migration failed'') (Debugf (''entity: '' @ Error err) w1)
              else WaitForMigration_table c n name (i + 1)
                     (Sleep c (50 * Millisecond) (Debugf (''entity: '' @ Error err) w1))))
      else Returned () w)"
  by pat_completeness auto
termination
  by (relation "measure (\<lambda>(c, n, name, i, w). n + 1 - i)") auto

declare WaitForMigration_table.simps [simp del]

text \<open>The outer loop \<^verbatim>\<open>for name := range list\<close>.\<close>

fun WaitForMigration :: "'db collab \<Rightarrow> Types \<Rightarrow> 'db world \<Rightarrow> (unit, 'db world) outcome" where
  "WaitForMigration c [] w = Returned () w"
| "WaitForMigration c ((name, _) # list) w =
     and_then (WaitForMigration_table c attempts name 0 w) (WaitForMigration c list)"

subsection \<open>Migrate and Drop\<close>

text \<open>
  \<^verbatim>\<open>for _, entity := range list\<close> with \<^verbatim>\<open>Db().AutoMigrate(entity)\<close>, and a panic with
  the error of the first call that reports one.
\<close>

fun Migrate :: "'db collab \<Rightarrow> Types \<Rightarrow> 'db world \<Rightarrow> (unit, 'db world) outcome" where
  "Migrate c [] w = Returned () w"
| "Migrate c ((_, entity) # list) w =
     (case AutoMigrate c entity w of
        (Some err, w1) \<Rightarrow> Panicked (PanicError err) w1
      | (None, w1) \<Rightarrow> Migrate c list w1)"

text \<open>The same loop with \<^verbatim>\<open>Db().DropTableIfExists(entity)\<close>.\<close>

fun Drop :: "'db collab \<Rightarrow> Types \<Rightarrow> 'db world \<Rightarrow> (unit, 'db world) outcome" where
  "Drop c [] w = Returned () w"
| "Drop c ((_, entity) # list) w =
     (case DropTableIfExists c entity w of
        (Some err, w1) \<Rightarrow> Panicked (PanicError err) w1
      | (None, w1) \<Rightarrow> Drop c list w1)"

subsection \<open>MigrateDb, DropTables, ResetDb\<close>

text \<open>
  \<^verbatim>\<open>MigrateDb\<close> ranges over \<^verbatim>\<open>Entities\<close> twice, in \<^verbatim>\<open>Migrate\<close> and in
  \<^verbatim>\<open>WaitForMigration\<close>: \<open>es_m\<close> and \<open>es_w\<close> are the registry as these two visit it.
\<close>

definition MigrateDb :: "'db collab \<Rightarrow> Types \<Rightarrow> Types \<Rightarrow> 'db world \<Rightarrow> (unit, 'db world) outcome" where
  "MigrateDb c es_m es_w w =
     and_then (Migrate c es_m w) (\<lambda>w1.
     and_then (WaitForMigration c es_w w1) (\<lambda>w2.
       Returned () (CreateUnknownLens c (CreateUnknownCamera c
                     (CreateUnknownCountry c (CreateUnknownPlace c w2))))))"

definition DropTables :: "'db collab \<Rightarrow> Types \<Rightarrow> 'db world \<Rightarrow> (unit, 'db world) outcome" where
  "DropTables c es_d w = Drop c es_d w"

definition ResetDb ::
  "'db collab \<Rightarrow> Types \<Rightarrow> Types \<Rightarrow> Types \<Rightarrow> bool \<Rightarrow> 'db world \<Rightarrow> (unit, 'db world) outcome" where
  "ResetDb c es_d es_m es_w testFixtures w =
     and_then (DropTables c es_d w) (\<lambda>w1.
     and_then (MigrateDb c es_m es_w w1) (\<lambda>w2.
       Returned () (if testFixtures then CreateTestFixtures c w2 else w2)))"

subsection \<open>InitTestFixtures and InitTestDb\<close>

text \<open>
  \<^verbatim>\<open>resetFixturesOnce.Do(f)\<close> as one caller sees it: \<open>f\<close> runs if the \<^verbatim>\<open>sync.Once\<close> has
  not fired, and the \<^verbatim>\<open>sync.Once\<close> has fired afterwards, also when \<open>f\<close> panicked.
\<close>

definition InitTestFixtures ::
  "'db collab \<Rightarrow> Types \<Rightarrow> Types \<Rightarrow> Types \<Rightarrow> 'db world \<Rightarrow> (unit, 'db world) outcome" where
  "InitTestFixtures c es_d es_m es_w w =
     (if resetFixturesOnce w then Returned () w
      else (case ResetDb c es_d es_m es_w True w of
              Returned _ w1 \<Rightarrow> Returned () (w1\<lparr>resetFixturesOnce := True\<rparr>)
            | Panicked p w1 \<Rightarrow> Panicked p (w1\<lparr>resetFixturesOnce := True\<rparr>)))"

text \<open>
  Modelled from the spec: \<^verbatim>\<open>HasDbProvider\<close> is declared in another file of the package.
  The spec has the provider as process-wide, singly registered state, and this function
  tells whether one is registered.
\<close>

definition HasDbProvider :: "'db world \<Rightarrow> bool" where
  "HasDbProvider w = (dbProvider w \<noteq> None)"

text \<open>
  Modelled from the spec: \<^verbatim>\<open>SetDbProvider\<close> is declared in another file of the package.
  It registers the provider; the spec has a provider that is already registered stay in
  place. \<^verbatim>\<open>InitTestDb\<close> calls it only when none is registered.
\<close>

definition SetDbProvider :: "Gorm \<Rightarrow> 'db world \<Rightarrow> 'db world" where
  "SetDbProvider provider w =
     (if dbProvider w = None then w\<lparr>dbProvider := Some provider\<rparr> else w)"

definition InitTestDb ::
  "'db collab \<Rightarrow> Types \<Rightarrow> Types \<Rightarrow> Types \<Rightarrow> string \<Rightarrow> 'db world \<Rightarrow> (Gorm option, 'db world) outcome" where
  "InitTestDb c es_d es_m es_w dsn w =
     (if HasDbProvider w then Returned None w
      else
        (let gorm = \<lparr>Driver = ''mysql'', Dsn = dsn\<rparr> in
         and_then (InitTestFixtures c es_d es_m es_w (SetDbProvider gorm w))
           (\<lambda>w1. Returned (Some gorm) w1)))"

subsection \<open>Reading a trace\<close>

text \<open>The number of probe queries in a list of events.\<close>

fun probes :: "event list \<Rightarrow> nat" where
  "probes [] = 0"
| "probes (RawScanCall _ # t) = Suc (probes t)"
| "probes (_ # t) = probes t"

text \<open>The sleeps in a list of events, each with its duration.\<close>

fun sleeps :: "event list \<Rightarrow> nat list" where
  "sleeps [] = []"
| "sleeps (SleepCall d # t) = d # sleeps t"
| "sleeps (_ # t) = sleeps t"

text \<open>The events the waiting loop can cause: a probe, a log line, a sleep.\<close>

fun wait_event :: "event \<Rightarrow> bool" where
  "wait_event (RawScanCall _) = True"
| "wait_event (DebugfCall _) = True"
| "wait_event (SleepCall _) = True"
| "wait_event _ = False"

text \<open>The four seed insertions, in the order of \<^verbatim>\<open>MigrateDb\<close>.\<close>

definition seed_calls :: "event list" where
  "seed_calls = [CreateUnknownPlaceCall, CreateUnknownCountryCall,
                 CreateUnknownCameraCall, CreateUnknownLensCall]"

text \<open>What a probe that succeeds leaves in the trace: the query and the log line.\<close>

definition ready_events :: "string \<Rightarrow> event list" where
  "ready_events name =
     [RawScanCall (describe_sql name), DebugfCall (''entity: table '' @ name @ '' migrated'')]"

text \<open>The world \<open>w\<close> with a new database and more events, everything else as it was.\<close>

definition advance :: "'db world \<Rightarrow> 'db \<Rightarrow> event list \<Rightarrow> 'db world" where
  "advance w d ts = w\<lparr>db := d, trace := trace w @ ts\<rparr>"

text \<open>A world in which nothing has happened yet.\<close>

definition start :: "'db \<Rightarrow> 'db world" where
  "start d = \<lparr>db = d, trace = [], dbProvider = None, resetFixturesOnce = False\<rparr>"

text \<open>The entities of the schema-create calls in a list of events.\<close>

fun creates :: "event list \<Rightarrow> entity list" where
  "creates [] = []"
| "creates (AutoMigrateCall e # t) = e # creates t"
| "creates (_ # t) = creates t"

text \<open>The seed insertions in a list of events.\<close>

definition seedings :: "event list \<Rightarrow> event list" where
  "seedings ts = filter (\<lambda>e. e \<in> set seed_calls) ts"

subsection \<open>Runs of collaborator calls\<close>

text \<open>
  The database after the calls \<open>f x\<close> for the \<open>x\<close> of a list, one after the other, and
  whether none of them reports an error, each call made in the database that the calls
  before it left.
\<close>

definition run_calls :: "('x \<Rightarrow> 'db \<Rightarrow> error option \<times> 'db) \<Rightarrow> 'x list \<Rightarrow> 'db \<Rightarrow> 'db" where
  "run_calls f xs d = foldl (\<lambda>d x. snd (f x d)) d xs"

definition calls_ok :: "('x \<Rightarrow> 'db \<Rightarrow> error option \<times> 'db) \<Rightarrow> 'x list \<Rightarrow> 'db \<Rightarrow> bool" where
  "calls_ok f xs d = (\<forall>i<length xs. fst (f (xs ! i) (run_calls f (take i xs) d)) = None)"

text \<open>The probe query for a table.\<close>

definition probe :: "'db collab \<Rightarrow> string \<Rightarrow> 'db \<Rightarrow> error option \<times> 'db" where
  "probe c name d = raw_scan c (describe_sql name) d"

text \<open>
  The database before probe \<open>j + 1\<close> of a table, when the \<open>j\<close> probes before it have
  failed: each was followed by a sleep of 50 ms.
\<close>

fun db_after_failures :: "'db collab \<Rightarrow> string \<Rightarrow> nat \<Rightarrow> 'db \<Rightarrow> 'db" where
  "db_after_failures c name 0 d = d"
| "db_after_failures c name (Suc j) d =
     db_after_failures c name j
       (sleep c (50 * Millisecond) (snd (raw_scan c (describe_sql name) d)))"

definition probe_fails :: "'db collab \<Rightarrow> string \<Rightarrow> nat \<Rightarrow> 'db \<Rightarrow> bool" where
  "probe_fails c name j d =
     (fst (raw_scan c (describe_sql name) (db_after_failures c name j d)) \<noteq> None)"

text \<open>The table is readable on probe \<open>k\<close> (counted from 1) and on none before it.\<close>

definition first_ready_at :: "'db collab \<Rightarrow> string \<Rightarrow> nat \<Rightarrow> 'db \<Rightarrow> bool" where
  "first_ready_at c name k d =
     (1 \<le> k \<and> (\<forall>j<k - 1. probe_fails c name j d) \<and> \<not> probe_fails c name (k - 1) d)"

text \<open>The table is readable on none of the probes 1 to \<open>n + 1\<close>.\<close>

definition never_ready :: "'db collab \<Rightarrow> string \<Rightarrow> nat \<Rightarrow> 'db \<Rightarrow> bool" where
  "never_ready c name n d = (\<forall>j\<le>n. probe_fails c name j d)"

text \<open>The database after the four seed constructors.\<close>

definition seed_db :: "'db collab \<Rightarrow> 'db \<Rightarrow> 'db" where
  "seed_db c d = create_unknown_lens c (create_unknown_camera c
                   (create_unknown_country c (create_unknown_place c d)))"

text \<open>
  The loop that \<^verbatim>\<open>Migrate\<close> and \<^verbatim>\<open>Drop\<close> share: one call per entry, a panic with the
  error of the first call that reports one.
\<close>

fun each_or_panic ::
  "(entity \<Rightarrow> 'db \<Rightarrow> error option \<times> 'db) \<Rightarrow> (entity \<Rightarrow> event) \<Rightarrow> Types \<Rightarrow> 'db world
     \<Rightarrow> (unit, 'db world) outcome" where
  "each_or_panic f ev [] w = Returned () w"
| "each_or_panic f ev ((_, e) # list) w =
     (case f e (db w) of
        (Some err, d) \<Rightarrow> Panicked (PanicError err) (advance w d [ev e])
      | (None, d) \<Rightarrow> each_or_panic f ev list (advance w d [ev e]))"

text \<open>
  The list \<open>es\<close> is the registry \<open>registry\<close> as one \<^verbatim>\<open>range\<close> statement may visit it:
  the same entries, each key once, in any order.
\<close>

definition visits :: "Types \<Rightarrow> Types \<Rightarrow> bool" where
  "visits registry es = (distinct (map fst es) \<and> set es = set registry)"

subsection \<open>The default rows\<close>

text \<open>
  The reference entities that have a default row, and what is asked of the collaborators
  where the default rows are counted, with \<open>rows s d\<close> the number of default rows of
  \<open>s\<close> in the database \<open>d\<close>.
\<close>

datatype seed = UnknownPlace | UnknownCountry | UnknownCamera | UnknownLens

text \<open>
  Modelled from the spec: the seed constructors \<^verbatim>\<open>CreateUnknownPlace\<close>,
  \<^verbatim>\<open>CreateUnknownCountry\<close>, \<^verbatim>\<open>CreateUnknownCamera\<close> and \<^verbatim>\<open>CreateUnknownLens\<close> are declared
  in other files of the package. The spec has each of them insert the default row of its
  reference entity if it is absent, and do nothing else: a constructor \<open>f\<close> for \<open>s\<close> adds
  one row of \<open>s\<close> to a database that has none, and changes no other count.
\<close>

definition insert_if_absent :: "(seed \<Rightarrow> 'db \<Rightarrow> nat) \<Rightarrow> seed \<Rightarrow> ('db \<Rightarrow> 'db) \<Rightarrow> bool" where
  "insert_if_absent rows s f =
     (\<forall>d s'. rows s' (f d) = (if s' = s \<and> rows s d = 0 then 1 else rows s' d))"

text \<open>
  Modelled from the spec: each of the four seed constructors of the collaborators inserts
  the default row of its own reference entity if it is absent.
\<close>

definition seeds_insert_if_absent :: "(seed \<Rightarrow> 'db \<Rightarrow> nat) \<Rightarrow> 'db collab \<Rightarrow> bool" where
  "seeds_insert_if_absent rows c =
     (insert_if_absent rows UnknownPlace (create_unknown_place c)
      \<and> insert_if_absent rows UnknownCountry (create_unknown_country c)
      \<and> insert_if_absent rows UnknownCamera (create_unknown_camera c)
      \<and> insert_if_absent rows UnknownLens (create_unknown_lens c))"

text \<open>
  Modelled from the spec: schema creation, the probe query and the passing of time leave
  the default rows alone. These are calls on GORM and on the database; the spec has
  schema creation create what is absent, and the probe read only.
\<close>

definition keeps_rows :: "(seed \<Rightarrow> 'db \<Rightarrow> nat) \<Rightarrow> 'db collab \<Rightarrow> bool" where
  "keeps_rows rows c =
     (\<forall>s d. (\<forall>e. rows s (snd (auto_migrate c e d)) = rows s d)
          \<and> (\<forall>sql. rows s (snd (raw_scan c sql d)) = rows s d)
          \<and> (\<forall>t. rows s (sleep c t d) = rows s d))"

subsection \<open>A database to run the package on\<close>

text \<open>
  A small database that stands in for the collaborators where a theorem is applied to a
  concrete run: it has the tables that were created, entities whose creation and drop
  fail, a switch that makes every probe fail, a number of probes that fail before the
  tables become readable, the default rows, and a flag for the fixtures.
\<close>

record sim =
  tables :: "entity list"
  failing :: "entity list"
  offline :: bool
  busy :: nat
  seeded :: "seed list"
  fixtures :: bool

definition sim_insert :: "seed \<Rightarrow> sim \<Rightarrow> sim" where
  "sim_insert s d = (if s \<in> set (seeded d) then d else d\<lparr>seeded := s # seeded d\<rparr>)"

definition sim_collab :: "sim collab" where
  "sim_collab =
     \<lparr>auto_migrate = (\<lambda>e d.
        if e \<in> set (failing d) then (Some (Err ''cannot create table''), d)
        else (None, if e \<in> set (tables d) then d else d\<lparr>tables := e # tables d\<rparr>)),
      drop_table_if_exists = (\<lambda>e d.
        if e \<in> set (failing d) then (Some (Err ''cannot drop table''), d)
        else (None, d\<lparr>tables := removeAll e (tables d)\<rparr>)),
      raw_scan = (\<lambda>sql d.
        if offline d then (Some (Err ''no such table''), d)
        else if 0 < busy d then (Some (Err ''no such table''), d\<lparr>busy := busy d - 1\<rparr>)
        else (None, d)),
      sleep = (\<lambda>t d. d),
      create_unknown_place = sim_insert UnknownPlace,
      create_unknown_country = sim_insert UnknownCountry,
      create_unknown_camera = sim_insert UnknownCamera,
      create_unknown_lens = sim_insert UnknownLens,
      create_test_fixtures = (\<lambda>d. d\<lparr>fixtures := True\<rparr>)\<rparr>"

definition sim_db :: sim where
  "sim_db = \<lparr>tables = [], failing = [], offline = False, busy = 0, seeded = [], fixtures = False\<rparr>"

text \<open>The default rows of the small database, counted.\<close>

definition sim_rows :: "seed \<Rightarrow> sim \<Rightarrow> nat" where
  "sim_rows s d = count_list (seeded d) s"

text \<open>
  The world after \<^verbatim>\<open>MigrateDb\<close> has run once on the empty small database, with the
  registry of \<^verbatim>\<open>cameras\<close> and \<^verbatim>\<open>lenses\<close>.
\<close>

definition sim_seeded_world :: "sim world" where
  "sim_seeded_world =
     \<lparr>db = sim_db\<lparr>tables := [Lens, Camera],
                  seeded := [UnknownLens, UnknownCamera, UnknownCountry, UnknownPlace]\<rparr>,
      trace = [AutoMigrateCall Camera, AutoMigrateCall Lens,
               RawScanCall ''DESCRIBE `lenses`'', DebugfCall ''entity: table lenses migrated'',
               RawScanCall ''DESCRIBE `cameras`'', DebugfCall ''entity: table cameras migrated'',
               CreateUnknownPlaceCall, CreateUnknownCountryCall,
               CreateUnknownCameraCall, CreateUnknownLensCall],
      dbProvider = None, resetFixturesOnce = False\<rparr>"

section \<open>Lemmas\<close>

lemma probes_append: "probes (xs @ ys) = probes xs + probes ys"
  by (induction xs rule: probes.induct) auto

lemma sleeps_append: "sleeps (xs @ ys) = sleeps xs @ sleeps ys"
  by (induction xs rule: sleeps.induct) auto

lemma advance_simps [simp]:
  "db (advance w d ts) = d"
  "trace (advance w d ts) = trace w @ ts"
  "dbProvider (advance w d ts) = dbProvider w"
  "resetFixturesOnce (advance w d ts) = resetFixturesOnce w"
  "advance (advance w d ts) d' ts' = advance w d' (ts @ ts')"
  "advance w (db w) [] = w"
  by (simp_all add: advance_def)

lemma emit_advance: "emit e (w\<lparr>db := d\<rparr>) = advance w d [e]"
  by (simp add: emit_def advance_def)

lemma run_calls_simps [simp]:
  "run_calls f [] d = d"
  "run_calls f (x # xs) d = run_calls f xs (snd (f x d))"
  by (simp_all add: run_calls_def)

lemma calls_ok_Nil [simp]: "calls_ok f [] d"
  by (simp add: calls_ok_def)

lemma calls_ok_Cons [simp]:
  "calls_ok f (x # xs) d = (fst (f x d) = None \<and> calls_ok f xs (snd (f x d)))"
proof
  assume a: "calls_ok f (x # xs) d"
  have "fst (f x d) = None" using a [unfolded calls_ok_def, rule_format, of 0] by simp
  moreover have "calls_ok f xs (snd (f x d))"
    unfolding calls_ok_def
  proof (intro allI impI)
    fix i assume "i < length xs"
    then show "fst (f (xs ! i) (run_calls f (take i xs) (snd (f x d)))) = None"
      using a [unfolded calls_ok_def, rule_format, of "Suc i"] by simp
  qed
  ultimately show "fst (f x d) = None \<and> calls_ok f xs (snd (f x d))" by simp
next
  assume a: "fst (f x d) = None \<and> calls_ok f xs (snd (f x d))"
  show "calls_ok f (x # xs) d"
    unfolding calls_ok_def
  proof (intro allI impI)
    fix i assume i: "i < length (x # xs)"
    show "fst (f ((x # xs) ! i) (run_calls f (take i (x # xs)) d)) = None"
    proof (cases i)
      case 0
      then show ?thesis using a by simp
    next
      case (Suc j)
      then show ?thesis using a i by (simp add: calls_ok_def)
    qed
  qed
qed

lemma Migrate_each: "Migrate c list w = each_or_panic (auto_migrate c) AutoMigrateCall list w"
  by (induction list arbitrary: w)
     (auto simp: AutoMigrate_def emit_advance split: prod.splits option.splits)

lemma Drop_each: "Drop c list w = each_or_panic (drop_table_if_exists c) DropTableIfExistsCall list w"
  by (induction list arbitrary: w)
     (auto simp: DropTableIfExists_def emit_advance split: prod.splits option.splits)

lemma each_returns:
  "calls_ok f (map snd list) (db w) \<Longrightarrow>
   each_or_panic f ev list w =
     Returned () (advance w (run_calls f (map snd list) (db w)) (map (ev \<circ> snd) list))"
proof (induction list arbitrary: w)
  case Nil
  show ?case by simp
next
  case (Cons x list)
  obtain name e where x: "x = (name, e)" by (cases x)
  obtain r d where fe: "f e (db w) = (r, d)" by (cases "f e (db w)")
  from Cons.prems have r: "r = None" and ok: "calls_ok f (map snd list) d"
    by (simp_all add: x fe)
  have "each_or_panic f ev (x # list) w = each_or_panic f ev list (advance w d [ev e])"
    by (simp add: x fe r)
  also have "\<dots> = Returned () (advance (advance w d [ev e])
       (run_calls f (map snd list) d) (map (ev \<circ> snd) list))"
    using Cons.IH [of "advance w d [ev e]"] ok by simp
  finally show ?case by (simp add: x fe)
qed

lemma each_panics:
  "i < length list \<Longrightarrow> calls_ok f (map snd (take i list)) (db w) \<Longrightarrow>
   f (snd (list ! i)) (run_calls f (map snd (take i list)) (db w)) = (Some err, d') \<Longrightarrow>
   each_or_panic f ev list w =
     Panicked (PanicError err) (advance w d' (map (ev \<circ> snd) (take (Suc i) list)))"
proof (induction list arbitrary: w i)
  case Nil
  then show ?case by simp
next
  case (Cons x list)
  obtain name e where x: "x = (name, e)" by (cases x)
  show ?case
  proof (cases i)
    case 0
    then show ?thesis using Cons.prems by (simp add: x)
  next
    case (Suc j)
    obtain r d where fe: "f e (db w) = (r, d)" by (cases "f e (db w)")
    from Cons.prems Suc have r: "r = None" and ok: "calls_ok f (map snd (take j list)) d"
      and j: "j < length list"
      and err: "f (snd (list ! j)) (run_calls f (map snd (take j list)) d) = (Some err, d')"
      by (simp_all add: x fe)
    have "each_or_panic f ev (x # list) w = each_or_panic f ev list (advance w d [ev e])"
      by (simp add: x fe r)
    also have "\<dots> = Panicked (PanicError err) (advance (advance w d [ev e]) d'
         (map (ev \<circ> snd) (take (Suc j) list)))"
      using Cons.IH [of j "advance w d [ev e]"] j ok err by simp
    finally show ?thesis by (simp add: x Suc)
  qed
qed

lemma each_final:
  "\<exists>d k. k \<le> length list \<and> final (each_or_panic f ev list w) = advance w d (map (ev \<circ> snd) (take k list))
     \<and> (returned (each_or_panic f ev list w) \<longrightarrow> k = length list)"
proof (induction list arbitrary: w)
  case Nil
  show ?case by (rule exI [of _ "db w"]) simp
next
  case (Cons x list)
  obtain name e where x: "x = (name, e)" by (cases x)
  obtain r d where fe: "f e (db w) = (r, d)" by (cases "f e (db w)")
  show ?case
  proof (cases r)
    case (Some err)
    have "final (each_or_panic f ev (x # list) w) = advance w d (map (ev \<circ> snd) (take 1 (x # list)))"
      "\<not> returned (each_or_panic f ev (x # list) w)"
      by (simp_all add: x fe Some)
    then show ?thesis by (intro exI [of _ d] exI [of _ 1]) simp
  next
    case None
    obtain d' k where k: "k \<le> length list"
      and fin: "final (each_or_panic f ev list (advance w d [ev e])) =
                 advance (advance w d [ev e]) d' (map (ev \<circ> snd) (take k list))"
      and ret: "returned (each_or_panic f ev list (advance w d [ev e])) \<longrightarrow> k = length list"
      using Cons.IH [of "advance w d [ev e]"] by blast
    have eq: "each_or_panic f ev (x # list) w = each_or_panic f ev list (advance w d [ev e])"
      by (simp add: x fe None)
    show ?thesis
      unfolding eq by (intro exI [of _ d'] exI [of _ "Suc k"]) (use k fin ret in \<open>simp add: x comp_def\<close>)
  qed
qed

lemma probe_fails_Suc:
  "probe_fails c name (Suc j) d =
     probe_fails c name j (sleep c (50 * Millisecond) (snd (raw_scan c (describe_sql name) d)))"
  by (simp add: probe_fails_def)

lemma table_step_fail:
  assumes "raw_scan c (describe_sql name) (db w) = (Some err, d1)" and "i < n"
  shows "WaitForMigration_table c n name i w =
         WaitForMigration_table c n name (Suc i)
           (advance w (sleep c (50 * Millisecond) d1)
              [RawScanCall (describe_sql name), DebugfCall (''entity: '' @ Error err),
               SleepCall (50 * Millisecond)])"
  using assms
  by (subst WaitForMigration_table.simps)
     (simp add: RawScan_def Sleep_def Debugf_def emit_def advance_def)

lemma table_step_panic:
  assumes "raw_scan c (describe_sql name) (db w) = (Some err, d1)"
  shows "WaitForMigration_table c n name n w =
         Panicked (PanicString ''migration failed'')
           (advance w d1 [RawScanCall (describe_sql name), DebugfCall (''entity: '' @ Error err)])"
  using assms
  by (subst WaitForMigration_table.simps)
     (simp add: RawScan_def Debugf_def emit_def advance_def)

lemma table_step_ready:
  assumes "raw_scan c (describe_sql name) (db w) = (None, d1)" and "i \<le> n"
  shows "WaitForMigration_table c n name i w =
         Returned () (advance w d1 [RawScanCall (describe_sql name),
                        DebugfCall (''entity: table '' @ name @ '' migrated'')])"
  using assms
  by (subst WaitForMigration_table.simps)
     (simp add: RawScan_def Debugf_def emit_def advance_def)

lemma table_failures:
  assumes "\<forall>j<m. probe_fails c name j (db w)" and "i + m \<le> n"
  shows "\<exists>ts. WaitForMigration_table c n name i w =
              WaitForMigration_table c n name (i + m)
                (advance w (db_after_failures c name m (db w)) ts)
           \<and> probes ts = m \<and> sleeps ts = replicate m (50 * Millisecond)
           \<and> list_all wait_event ts"
  using assms
proof (induction m arbitrary: i w)
  case 0
  show ?case by (rule exI [of _ "[]"]) simp
next
  case (Suc m)
  from Suc.prems(1) have "probe_fails c name 0 (db w)" by blast
  then obtain err d1 where r: "raw_scan c (describe_sql name) (db w) = (Some err, d1)"
    by (cases "raw_scan c (describe_sql name) (db w)") (auto simp: probe_fails_def)
  define t1 where "t1 = [RawScanCall (describe_sql name), DebugfCall (''entity: '' @ Error err),
               SleepCall (50 * Millisecond)]"
  define w1 where "w1 = advance w (sleep c (50 * Millisecond) d1) t1"
  from Suc.prems(2) have "i < n" by simp
  then have step: "WaitForMigration_table c n name i w = WaitForMigration_table c n name (Suc i) w1"
    unfolding w1_def t1_def by (rule table_step_fail [OF r])
  have "\<forall>j<m. probe_fails c name j (db w1)"
  proof (intro allI impI)
    fix j assume "j < m"
    then have "probe_fails c name (Suc j) (db w)" using Suc.prems(1) by simp
    then show "probe_fails c name j (db w1)"
      by (simp add: probe_fails_Suc r w1_def)
  qed
  moreover have "Suc i + m \<le> n" using Suc.prems(2) by simp
  ultimately obtain ts where
    a: "WaitForMigration_table c n name (Suc i) w1 =
        WaitForMigration_table c n name (Suc i + m)
          (advance w1 (db_after_failures c name m (db w1)) ts)"
    and p: "probes ts = m"
    and s: "sleeps ts = replicate m (50 * Millisecond)"
    and e: "list_all wait_event ts"
    using Suc.IH [of w1 "Suc i"] by blast
  have "WaitForMigration_table c n name i w =
        WaitForMigration_table c n name (i + Suc m)
          (advance w (db_after_failures c name (Suc m) (db w)) (t1 @ ts))"
    using step a by (simp add: w1_def r)
  moreover have "probes (t1 @ ts) = Suc m"
    using p by (simp add: t1_def)
  moreover have "sleeps (t1 @ ts) = replicate (Suc m) (50 * Millisecond)"
    using s by (simp add: t1_def)
  moreover have "list_all wait_event (t1 @ ts)"
    using e by (simp add: t1_def)
  ultimately show ?case by blast
qed

lemma table_ready_at:
  assumes "first_ready_at c name k (db w)" and "k \<le> Suc n"
  shows "\<exists>d ts. WaitForMigration_table c n name 0 w = Returned () (advance w d ts)
           \<and> probes ts = k \<and> sleeps ts = replicate (k - 1) (50 * Millisecond)
           \<and> list_all wait_event ts"
proof -
  from assms(1) have k: "1 \<le> k" and fails: "\<forall>j<k - 1. probe_fails c name j (db w)"
    and ok: "\<not> probe_fails c name (k - 1) (db w)"
    by (simp_all add: first_ready_at_def)
  from k assms(2) have le: "0 + (k - 1) \<le> n" by simp
  obtain ts where
    a: "WaitForMigration_table c n name 0 w =
        WaitForMigration_table c n name (0 + (k - 1))
          (advance w (db_after_failures c name (k - 1) (db w)) ts)"
    and p: "probes ts = k - 1"
    and s: "sleeps ts = replicate (k - 1) (50 * Millisecond)"
    and e: "list_all wait_event ts"
    using table_failures [OF fails le] by blast
  define w1 where "w1 = advance w (db_after_failures c name (k - 1) (db w)) ts"
  obtain d1 where r: "raw_scan c (describe_sql name) (db w1) = (None, d1)"
    using ok by (cases "raw_scan c (describe_sql name) (db w1)") (auto simp: probe_fails_def w1_def)
  define t2 where "t2 = [RawScanCall (describe_sql name),
                        DebugfCall (''entity: table '' @ name @ '' migrated'')]"
  have "WaitForMigration_table c n name (k - 1) w1 = Returned () (advance w1 d1 t2)"
    unfolding t2_def using le by (intro table_step_ready [OF r]) simp
  then have "WaitForMigration_table c n name 0 w = Returned () (advance w d1 (ts @ t2))"
    using a by (simp add: w1_def)
  moreover have "probes (ts @ t2) = k" using p k by (simp add: probes_append t2_def)
  moreover have "sleeps (ts @ t2) = replicate (k - 1) (50 * Millisecond)"
    using s by (simp add: sleeps_append t2_def)
  moreover have "list_all wait_event (ts @ t2)" using e by (simp add: t2_def)
  ultimately show ?thesis by blast
qed

lemma table_never_ready:
  assumes "never_ready c name n (db w)"
  shows "\<exists>d ts. WaitForMigration_table c n name 0 w =
                  Panicked (PanicString ''migration failed'') (advance w d ts)
           \<and> probes ts = Suc n \<and> sleeps ts = replicate n (50 * Millisecond)
           \<and> list_all wait_event ts"
proof -
  from assms have fails: "\<forall>j<n. probe_fails c name j (db w)"
    and last: "probe_fails c name n (db w)"
    by (simp_all add: never_ready_def)
  obtain ts where
    a: "WaitForMigration_table c n name 0 w =
        WaitForMigration_table c n name (0 + n)
          (advance w (db_after_failures c name n (db w)) ts)"
    and p: "probes ts = n"
    and s: "sleeps ts = replicate n (50 * Millisecond)"
    and e: "list_all wait_event ts"
    using table_failures [OF fails, of 0 n] by auto
  define w1 where "w1 = advance w (db_after_failures c name n (db w)) ts"
  obtain err d1 where r: "raw_scan c (describe_sql name) (db w1) = (Some err, d1)"
    using last by (cases "raw_scan c (describe_sql name) (db w1)") (auto simp: probe_fails_def w1_def)
  define t2 where "t2 = [RawScanCall (describe_sql name), DebugfCall (''entity: '' @ Error err)]"
  have "WaitForMigration_table c n name n w1 =
        Panicked (PanicString ''migration failed'') (advance w1 d1 t2)"
    unfolding t2_def by (rule table_step_panic [OF r])
  then have "WaitForMigration_table c n name 0 w =
             Panicked (PanicString ''migration failed'') (advance w d1 (ts @ t2))"
    using a by (simp add: w1_def)
  moreover have "probes (ts @ t2) = Suc n" using p by (simp add: probes_append t2_def)
  moreover have "sleeps (ts @ t2) = replicate n (50 * Millisecond)"
    using s by (simp add: sleeps_append t2_def)
  moreover have "list_all wait_event (ts @ t2)" using e by (simp add: t2_def)
  ultimately show ?thesis by blast
qed

lemma table_final:
  "\<exists>d ts. final (WaitForMigration_table c n name i w) = advance w d ts \<and> list_all wait_event ts
      \<and> (i \<le> n \<longrightarrow> 1 \<le> probes ts) \<and> probes ts \<le> Suc n - i"
proof (induction c n name i w rule: WaitForMigration_table.induct)
  case (1 c n name i w)
  show ?case
  proof (cases "i \<le> n")
    case False
    then have "WaitForMigration_table c n name i w = Returned () w"
      by (subst WaitForMigration_table.simps) simp
    then show ?thesis using False by (intro exI [of _ "db w"] exI [of _ "[]"]) simp
  next
    case True
    obtain r d1 where rs: "raw_scan c (describe_sql name) (db w) = (r, d1)"
      by (cases "raw_scan c (describe_sql name) (db w)")
    show ?thesis
    proof (cases r)
      case None
      show ?thesis
        using table_step_ready [OF rs [unfolded None] True] True
        by (intro exI [of _ d1] exI [of _ "[RawScanCall (describe_sql name),
                        DebugfCall (''entity: table '' @ name @ '' migrated'')]"]) simp
    next
      case (Some err)
      note rs' = rs [unfolded Some]
      show ?thesis
      proof (cases "i = n")
        case True
        show ?thesis
          using table_step_panic [OF rs', of n] True
          by (intro exI [of _ d1] exI [of _ "[RawScanCall (describe_sql name),
                DebugfCall (''entity: '' @ Error err)]"]) simp
      next
        case False
        with \<open>i \<le> n\<close> have lt: "i < n" by simp
        define t1 where "t1 = [RawScanCall (describe_sql name),
               DebugfCall (''entity: '' @ Error err), SleepCall (50 * Millisecond)]"
        define w1 where "w1 = advance w (sleep c (50 * Millisecond) d1) t1"
        have w1: "w1 = Sleep c (50 * Millisecond) (Debugf (''entity: '' @ Error err)
                         (snd (RawScan c (describe_sql name) w)))"
          by (simp add: w1_def t1_def RawScan_def rs' Sleep_def Debugf_def emit_def advance_def)
        have rsw: "RawScan c (describe_sql name) w = (Some err, snd (RawScan c (describe_sql name) w))"
          by (simp add: RawScan_def rs')
        obtain d ts where fin: "final (WaitForMigration_table c n name (i + 1) w1) = advance w1 d ts"
          and ev: "list_all wait_event ts" and pr: "probes ts \<le> Suc n - (i + 1)"
          using "1.IH" [OF \<open>i \<le> n\<close> rsw [symmetric] refl False] unfolding w1 by blast
        have "WaitForMigration_table c n name i w = WaitForMigration_table c n name (Suc i) w1"
          unfolding w1_def t1_def by (rule table_step_fail [OF rs' lt])
        then have "final (WaitForMigration_table c n name i w) = advance w d (t1 @ ts)"
          using fin by (simp add: w1_def)
        moreover have "list_all wait_event (t1 @ ts)" using ev by (simp add: t1_def)
        moreover have "1 \<le> probes (t1 @ ts)" by (simp add: t1_def)
        moreover have "probes (t1 @ ts) \<le> Suc n - i" using pr lt by (simp add: t1_def)
        ultimately show ?thesis by blast
      qed
    qed
  qed
qed

lemma and_then_Returned:
  "(and_then r f = Returned x s') = (\<exists>a s. r = Returned a s \<and> f s = Returned x s')"
  by (cases r) auto

lemma and_then_final:
  "final (and_then r f) = (if returned r then final (f (final r)) else final r)"
  by (cases r) auto

lemma and_then_returned:
  "returned (and_then r f) = (returned r \<and> returned (f (final r)))"
  by (cases r) auto

lemma wait_event_no_fixtures: "list_all wait_event ts \<Longrightarrow> CreateTestFixturesCall \<notin> set ts"
  by (auto simp: list_all_iff)

lemma WaitForMigration_final:
  "\<exists>d ts. final (WaitForMigration c list w) = advance w d ts \<and> list_all wait_event ts
      \<and> (returned (WaitForMigration c list w) \<longrightarrow> length list \<le> probes ts)"
proof (induction list arbitrary: w)
  case Nil
  show ?case by (intro exI [of _ "db w"] exI [of _ "[]"]) simp
next
  case (Cons x list)
  obtain name e where x: "x = (name, e)" by (cases x)
  obtain d1 t1 where t: "final (WaitForMigration_table c attempts name 0 w) = advance w d1 t1"
    and e1: "list_all wait_event t1" and p1: "1 \<le> probes t1"
    using table_final [of c attempts name 0 w] by auto
  show ?case
  proof (cases "WaitForMigration_table c attempts name 0 w")
    case (Panicked p w1)
    then have "final (WaitForMigration c (x # list) w) = advance w d1 t1"
      "\<not> returned (WaitForMigration c (x # list) w)"
      using t by (simp_all add: x)
    then show ?thesis using e1 by blast
  next
    case (Returned u w1)
    then have w1: "w1 = advance w d1 t1" using t by simp
    obtain d2 t2 where f2: "final (WaitForMigration c list w1) = advance w1 d2 t2"
      and e2: "list_all wait_event t2"
      and p2: "returned (WaitForMigration c list w1) \<longrightarrow> length list \<le> probes t2"
      using Cons.IH [of w1] by blast
    have eq: "WaitForMigration c (x # list) w = WaitForMigration c list w1"
      using Returned by (simp add: x)
    have "final (WaitForMigration c (x # list) w) = advance w d2 (t1 @ t2)"
      unfolding eq using f2 by (simp add: w1)
    moreover have "list_all wait_event (t1 @ t2)" using e1 e2 by simp
    moreover have "returned (WaitForMigration c (x # list) w) \<longrightarrow>
                   length (x # list) \<le> probes (t1 @ t2)"
      unfolding eq using p1 p2 by (auto simp: probes_append)
    ultimately show ?thesis by blast
  qed
qed

lemma WaitForMigration_first_attempt:
  "calls_ok (probe c) (map fst list) (db w) \<Longrightarrow>
   WaitForMigration c list w =
     Returned () (advance w (run_calls (probe c) (map fst list) (db w))
                    (concat (map (ready_events \<circ> fst) list)))"
proof (induction list arbitrary: w)
  case Nil
  show ?case by simp
next
  case (Cons x list)
  obtain name e where x: "x = (name, e)" by (cases x)
  obtain r d1 where rs: "raw_scan c (describe_sql name) (db w) = (r, d1)"
    by (cases "raw_scan c (describe_sql name) (db w)")
  have pr: "probe c name (db w) = (r, d1)" by (simp add: probe_def rs)
  from Cons.prems have r: "r = None" and ok: "calls_ok (probe c) (map fst list) d1"
    by (simp_all add: x pr)
  have "WaitForMigration_table c attempts name 0 w = Returned () (advance w d1 (ready_events name))"
    unfolding ready_events_def by (rule table_step_ready [OF rs [unfolded r]]) simp
  then have "WaitForMigration c (x # list) w = WaitForMigration c list (advance w d1 (ready_events name))"
    by (simp add: x)
  also have "\<dots> = Returned () (advance (advance w d1 (ready_events name))
                 (run_calls (probe c) (map fst list) d1) (concat (map (ready_events \<circ> fst) list)))"
    using Cons.IH [of "advance w d1 (ready_events name)"] ok by (simp add: comp_def)
  finally show ?case by (simp add: x pr comp_def)
qed

lemma seeds_advance:
  "CreateUnknownLens c (CreateUnknownCamera c (CreateUnknownCountry c (CreateUnknownPlace c w))) =
   advance w (seed_db c (db w)) seed_calls"
  by (simp add: CreateUnknownLens_def CreateUnknownCamera_def CreateUnknownCountry_def
      CreateUnknownPlace_def emit_def advance_def seed_db_def seed_calls_def)

lemma Migrate_final:
  "\<exists>d k. k \<le> length list \<and> final (Migrate c list w) = advance w d (map (AutoMigrateCall \<circ> snd) (take k list))
     \<and> (returned (Migrate c list w) \<longrightarrow> k = length list)"
  unfolding Migrate_each by (rule each_final)

lemma Drop_final:
  "\<exists>d k. k \<le> length list \<and> final (Drop c list w) = advance w d (map (DropTableIfExistsCall \<circ> snd) (take k list))
     \<and> (returned (Drop c list w) \<longrightarrow> k = length list)"
  unfolding Drop_each by (rule each_final)

lemma MigrateDb_returned:
  assumes "MigrateDb c es_m es_w w = Returned () w'"
  shows "\<exists>d ts. w' = advance w d (map (AutoMigrateCall \<circ> snd) es_m @ ts @ seed_calls)
           \<and> list_all wait_event ts \<and> length es_w \<le> probes ts"
proof -
  from assms obtain w1 w2 where m: "Migrate c es_m w = Returned () w1"
    and wt: "WaitForMigration c es_w w1 = Returned () w2"
    and w': "w' = advance w2 (seed_db c (db w2)) seed_calls"
    by (auto simp: MigrateDb_def and_then_Returned seeds_advance)
  obtain d1 where w1: "w1 = advance w d1 (map (AutoMigrateCall \<circ> snd) es_m)"
    using Migrate_final [of es_m c w] m by auto
  obtain d2 ts where w2: "w2 = advance w1 d2 ts" and ev: "list_all wait_event ts"
    and pr: "length es_w \<le> probes ts"
    using WaitForMigration_final [of c es_w w1] wt by auto
  have "w' = advance w (seed_db c d2) (map (AutoMigrateCall \<circ> snd) es_m @ ts @ seed_calls)"
    by (simp add: w' w2 w1)
  with ev pr show ?thesis by blast
qed

lemma MigrateDb_final:
  "\<exists>d ts. final (MigrateDb c es_m es_w w) = advance w d ts \<and> CreateTestFixturesCall \<notin> set ts"
proof -
  obtain d1 k where f1: "final (Migrate c es_m w) = advance w d1 (map (AutoMigrateCall \<circ> snd) (take k es_m))"
    using Migrate_final [of es_m c w] by blast
  define w1 where "w1 = final (Migrate c es_m w)"
  obtain d2 t2 where f2: "final (WaitForMigration c es_w w1) = advance w1 d2 t2"
    and e2: "list_all wait_event t2"
    using WaitForMigration_final [of c es_w w1] by blast
  define w2 where "w2 = final (WaitForMigration c es_w w1)"
  have n1: "CreateTestFixturesCall \<notin> set (map (AutoMigrateCall \<circ> snd) (take k es_m))" by auto
  have n2: "CreateTestFixturesCall \<notin> set t2" using e2 by (rule wait_event_no_fixtures)
  have n3: "CreateTestFixturesCall \<notin> set seed_calls" by (simp add: seed_calls_def)
  show ?thesis
  proof (cases "returned (Migrate c es_m w)")
    case False
    then have "final (MigrateDb c es_m es_w w) = advance w d1 (map (AutoMigrateCall \<circ> snd) (take k es_m))"
      using f1 by (simp add: MigrateDb_def and_then_final)
    with n1 show ?thesis by blast
  next
    case True
    show ?thesis
    proof (cases "returned (WaitForMigration c es_w w1)")
      case False
      then have "final (MigrateDb c es_m es_w w) =
                 advance w d2 (map (AutoMigrateCall \<circ> snd) (take k es_m) @ t2)"
        using True f1 f2 by (simp add: MigrateDb_def and_then_final w1_def)
      moreover have "CreateTestFixturesCall \<notin> set (map (AutoMigrateCall \<circ> snd) (take k es_m) @ t2)"
        using n1 n2 by simp
      ultimately show ?thesis by blast
    next
      case False2: True
      have "final (MigrateDb c es_m es_w w) =
            advance w (seed_db c d2) (map (AutoMigrateCall \<circ> snd) (take k es_m) @ t2 @ seed_calls)"
        using True False2 f1 f2
        by (simp add: MigrateDb_def and_then_final w1_def seeds_advance)
      moreover have "CreateTestFixturesCall \<notin>
                     set (map (AutoMigrateCall \<circ> snd) (take k es_m) @ t2 @ seed_calls)"
        using n1 n2 n3 by simp
      ultimately show ?thesis by blast
    qed
  qed
qed

lemma MigrateDb_first_attempt:
  assumes "calls_ok (auto_migrate c) (map snd es_m) (db w)"
    and "calls_ok (probe c) (map fst es_w) (run_calls (auto_migrate c) (map snd es_m) (db w))"
  shows "\<exists>d. MigrateDb c es_m es_w w =
           Returned () (advance w d (map (AutoMigrateCall \<circ> snd) es_m @
                          concat (map (ready_events \<circ> fst) es_w) @ seed_calls))"
proof -
  define w1 where "w1 = advance w (run_calls (auto_migrate c) (map snd es_m) (db w))
                          (map (AutoMigrateCall \<circ> snd) es_m)"
  have m: "Migrate c es_m w = Returned () w1"
    unfolding Migrate_each w1_def by (rule each_returns [OF assms(1)])
  have "calls_ok (probe c) (map fst es_w) (db w1)" using assms(2) by (simp add: w1_def)
  note wt = WaitForMigration_first_attempt [OF this]
  have "MigrateDb c es_m es_w w =
        Returned () (advance w (seed_db c (run_calls (probe c) (map fst es_w) (db w1)))
                       (map (AutoMigrateCall \<circ> snd) es_m @
                          concat (map (ready_events \<circ> fst) es_w) @ seed_calls))"
    unfolding MigrateDb_def m and_then.simps wt seeds_advance by (simp add: w1_def)
  then show ?thesis by blast
qed

lemma sim_offline_failures:
  "offline d \<Longrightarrow> db_after_failures sim_collab name j d = d"
  by (induction j) (simp_all add: sim_collab_def)

lemma sim_offline_never_ready: "offline d \<Longrightarrow> never_ready sim_collab name n d"
  by (simp add: never_ready_def probe_fails_def sim_offline_failures) (simp add: sim_collab_def)

lemma sim_busy_failures:
  "\<not> offline d \<Longrightarrow> j \<le> busy d \<Longrightarrow> db_after_failures sim_collab name j d = d\<lparr>busy := busy d - j\<rparr>"
proof (induction j arbitrary: d)
  case 0
  show ?case by simp
next
  case (Suc j)
  then show ?case by (simp add: sim_collab_def)
qed

lemma sim_busy_first_ready:
  "\<not> offline d \<Longrightarrow> first_ready_at sim_collab name (Suc (busy d)) d"
  by (simp add: first_ready_at_def probe_fails_def sim_busy_failures) (simp add: sim_collab_def)

lemma creates_append: "creates (xs @ ys) = creates xs @ creates ys"
  by (induction xs rule: creates.induct) auto

lemma seedings_append: "seedings (xs @ ys) = seedings xs @ seedings ys"
  by (simp add: seedings_def)

lemma creates_wait: "list_all wait_event ts \<Longrightarrow> creates ts = []"
  by (induction ts rule: creates.induct) auto

lemma seedings_wait: "list_all wait_event ts \<Longrightarrow> seedings ts = []"
proof (induction ts)
  case Nil
  show ?case by (simp add: seedings_def)
next
  case (Cons e ts)
  then show ?case by (cases e) (auto simp: seedings_def seed_calls_def)
qed

lemma sleeps_creates: "sleeps (map (AutoMigrateCall \<circ> snd) es) = []"
  by (induction es) auto

lemma probes_creates: "probes (map (AutoMigrateCall \<circ> snd) es) = 0"
  by (induction es) auto

lemma creates_creates: "creates (map (AutoMigrateCall \<circ> snd) es) = map snd es"
  by (induction es) auto

lemma seedings_creates: "seedings (map (AutoMigrateCall \<circ> snd) es) = []"
  by (induction es) (auto simp: seedings_def seed_calls_def)

lemma ready_events_wait: "list_all wait_event (concat (map (ready_events \<circ> fst) es))"
  by (induction es) (auto simp: ready_events_def)

lemma probes_ready: "probes (concat (map (ready_events \<circ> fst) es)) = length es"
  by (induction es) (auto simp: ready_events_def)

lemma sleeps_ready: "sleeps (concat (map (ready_events \<circ> fst) es)) = []"
  by (induction es) (auto simp: ready_events_def)

lemma seed_calls_obs:
  "creates seed_calls = []" "probes seed_calls = 0" "sleeps seed_calls = []"
  "seedings seed_calls = seed_calls"
  by (simp_all add: seed_calls_def seedings_def)

lemma visits_length:
  assumes "visits registry es" and "distinct (map fst registry)"
  shows "length es = length registry"
proof -
  from assms have "distinct es" "distinct registry" "set es = set registry"
    by (auto simp: visits_def distinct_map)
  then show ?thesis by (metis distinct_card)
qed

lemma each_returned_iff:
  "returned (each_or_panic f ev list w) = calls_ok f (map snd list) (db w)"
proof (induction list arbitrary: w)
  case Nil
  show ?case by simp
next
  case (Cons x list)
  obtain name e where x: "x = (name, e)" by (cases x)
  obtain r d where fe: "f e (db w) = (r, d)" by (cases "f e (db w)")
  show ?case
  proof (cases r)
    case None
    then show ?thesis using Cons.IH [of "advance w d [ev e]"] by (simp add: x fe)
  next
    case (Some err)
    then show ?thesis by (simp add: x fe)
  qed
qed

lemma each_panic_value:
  "each_or_panic f ev list w = Panicked p w' \<Longrightarrow> \<exists>err. p = PanicError err"
proof (induction list arbitrary: w)
  case Nil
  then show ?case by simp
next
  case (Cons x list)
  obtain name e where x: "x = (name, e)" by (cases x)
  obtain r d where fe: "f e (db w) = (r, d)" by (cases "f e (db w)")
  show ?case
  proof (cases r)
    case None
    then show ?thesis using Cons.IH [of "advance w d [ev e]"] Cons.prems by (simp add: x fe)
  next
    case (Some err)
    then show ?thesis using Cons.prems by (auto simp: x fe)
  qed
qed

lemma fixtures_advance:
  "CreateTestFixtures c w = advance w (create_test_fixtures c (db w)) [CreateTestFixturesCall]"
  by (simp add: CreateTestFixtures_def emit_def advance_def)

lemma count_fixtures_0: "CreateTestFixturesCall \<notin> set ts \<Longrightarrow> count_list ts CreateTestFixturesCall = 0"
  by (simp add: count_list_0_iff)

lemma ResetDb_final:
  "\<exists>d ts. final (ResetDb c es_d es_m es_w b w) = advance w d ts
     \<and> count_list ts CreateTestFixturesCall =
         (if b \<and> returned (ResetDb c es_d es_m es_w b w) then 1 else 0)"
proof -
  obtain d1 k where f1: "final (Drop c es_d w) =
      advance w d1 (map (DropTableIfExistsCall \<circ> snd) (take k es_d))"
    using Drop_final [of es_d c w] by blast
  define t1 where "t1 = map (DropTableIfExistsCall \<circ> snd) (take k es_d)"
  have n1: "count_list t1 CreateTestFixturesCall = 0"
    unfolding t1_def by (rule count_fixtures_0) auto
  define w1 where "w1 = final (Drop c es_d w)"
  obtain d2 t2 where f2: "final (MigrateDb c es_m es_w w1) = advance w1 d2 t2"
    and n2': "CreateTestFixturesCall \<notin> set t2"
    using MigrateDb_final [of c es_m es_w w1] by blast
  have n2: "count_list t2 CreateTestFixturesCall = 0" using n2' by (rule count_fixtures_0)
  define w2 where "w2 = final (MigrateDb c es_m es_w w1)"
  have w1: "w1 = advance w d1 t1" using f1 by (simp add: w1_def t1_def)
  have w2: "w2 = advance w d2 (t1 @ t2)" using f2 by (simp add: w2_def w1)
  show ?thesis
  proof (cases "returned (Drop c es_d w)")
    case False
    then have "final (ResetDb c es_d es_m es_w b w) = advance w d1 t1"
      "\<not> returned (ResetDb c es_d es_m es_w b w)"
      using w1 by (simp_all add: ResetDb_def DropTables_def and_then_final and_then_returned w1_def)
    with n1 show ?thesis by (intro exI [of _ d1] exI [of _ t1]) simp
  next
    case True
    show ?thesis
    proof (cases "returned (MigrateDb c es_m es_w w1)")
      case False
      then have "final (ResetDb c es_d es_m es_w b w) = advance w d2 (t1 @ t2)"
        "\<not> returned (ResetDb c es_d es_m es_w b w)"
        using True w2
        by (simp_all add: ResetDb_def DropTables_def and_then_final and_then_returned
            w1_def w2_def)
      with n1 n2 show ?thesis by (intro exI [of _ d2] exI [of _ "t1 @ t2"]) simp
    next
      case rm: True
      have fin: "final (ResetDb c es_d es_m es_w b w) = (if b then CreateTestFixtures c w2 else w2)"
        and ret: "returned (ResetDb c es_d es_m es_w b w)"
        using True rm
        by (simp_all add: ResetDb_def DropTables_def and_then_final and_then_returned
            w1_def w2_def)
      show ?thesis
      proof (cases b)
        case True
        then have "final (ResetDb c es_d es_m es_w b w) =
            advance w (create_test_fixtures c d2) (t1 @ t2 @ [CreateTestFixturesCall])"
          using fin by (simp add: fixtures_advance w2)
        with n1 n2 ret True show ?thesis
          by (intro exI [of _ "create_test_fixtures c d2"]
                exI [of _ "t1 @ t2 @ [CreateTestFixturesCall]"]) simp
      next
        case False
        then have "final (ResetDb c es_d es_m es_w b w) = advance w d2 (t1 @ t2)"
          using fin by (simp add: w2)
        with n1 n2 False show ?thesis by (intro exI [of _ d2] exI [of _ "t1 @ t2"]) simp
      qed
    qed
  qed
qed

lemma ResetDb_provider:
  "dbProvider (final (ResetDb c es_d es_m es_w b w)) = dbProvider w
   \<and> resetFixturesOnce (final (ResetDb c es_d es_m es_w b w)) = resetFixturesOnce w"
proof -
  obtain d ts where "final (ResetDb c es_d es_m es_w b w) = advance w d ts"
    using ResetDb_final [of c es_d es_m es_w b w] by blast
  then show ?thesis by simp
qed

lemma InitTestFixtures_final:
  "dbProvider (final (InitTestFixtures c es_d es_m es_w w)) = dbProvider w
   \<and> resetFixturesOnce (final (InitTestFixtures c es_d es_m es_w w))"
proof (cases "resetFixturesOnce w")
  case True
  then show ?thesis by (simp add: InitTestFixtures_def)
next
  case False
  then show ?thesis
    using ResetDb_provider [of c es_d es_m es_w True w]
    by (cases "ResetDb c es_d es_m es_w True w") (simp_all add: InitTestFixtures_def)
qed

lemma each_db_invariant:
  assumes "\<And>e d. P d \<Longrightarrow> P (snd (f e d))" and "P (db w)"
  shows "P (db (final (each_or_panic f ev list w)))"
  using assms(2)
proof (induction list arbitrary: w)
  case Nil
  then show ?case by simp
next
  case (Cons x list)
  obtain name e where x: "x = (name, e)" by (cases x)
  obtain r d where fe: "f e (db w) = (r, d)" by (cases "f e (db w)")
  have d: "P d" using assms(1) [OF Cons.prems, of e] by (simp add: fe)
  show ?case
  proof (cases r)
    case None
    then show ?thesis using Cons.IH [of "advance w d [ev e]"] d by (simp add: x fe)
  next
    case (Some err)
    then show ?thesis using d by (simp add: x fe)
  qed
qed

lemma table_db_invariant:
  "\<forall>sql d. P d \<longrightarrow> P (snd (raw_scan c sql d)) \<Longrightarrow> \<forall>t d. P d \<longrightarrow> P (sleep c t d) \<Longrightarrow>
   P (db w) \<Longrightarrow> P (db (final (WaitForMigration_table c n name i w)))"
proof (induction c n name i w rule: WaitForMigration_table.induct)
  case (1 c n name i w)
  note scan = "1.prems"(1) and slp = "1.prems"(2) and Pw = "1.prems"(3)
  show ?case
  proof (cases "i \<le> n")
    case False
    then have "WaitForMigration_table c n name i w = Returned () w"
      by (subst WaitForMigration_table.simps) simp
    then show ?thesis using Pw by simp
  next
    case True
    obtain r d1 where rs: "raw_scan c (describe_sql name) (db w) = (r, d1)"
      by (cases "raw_scan c (describe_sql name) (db w)")
    have d1: "P d1" using scan [rule_format, OF Pw, of "describe_sql name"] by (simp add: rs)
    show ?thesis
    proof (cases r)
      case None
      show ?thesis using table_step_ready [OF rs [unfolded None] True] d1 by simp
    next
      case (Some err)
      note rs' = rs [unfolded Some]
      show ?thesis
      proof (cases "i = n")
        case True
        show ?thesis using table_step_panic [OF rs', of n] True d1 by simp
      next
        case False
        with \<open>i \<le> n\<close> have lt: "i < n" by simp
        define w1 where "w1 = advance w (sleep c (50 * Millisecond) d1)
            [RawScanCall (describe_sql name), DebugfCall (''entity: '' @ Error err),
             SleepCall (50 * Millisecond)]"
        have w1: "w1 = Sleep c (50 * Millisecond) (Debugf (''entity: '' @ Error err)
                         (snd (RawScan c (describe_sql name) w)))"
          by (simp add: w1_def RawScan_def rs' Sleep_def Debugf_def emit_def advance_def)
        have rsw: "RawScan c (describe_sql name) w = (Some err, snd (RawScan c (describe_sql name) w))"
          by (simp add: RawScan_def rs')
        have "P (db w1)" using slp [rule_format, OF d1] by (simp add: w1_def)
        then have "P (db (final (WaitForMigration_table c n name (i + 1) w1)))"
          using "1.IH" [OF \<open>i \<le> n\<close> rsw [symmetric] refl False scan slp] unfolding w1 by blast
        moreover have "WaitForMigration_table c n name i w = WaitForMigration_table c n name (Suc i) w1"
          unfolding w1_def by (rule table_step_fail [OF rs' lt])
        ultimately show ?thesis by simp
      qed
    qed
  qed
qed

lemma WaitForMigration_db_invariant:
  assumes "\<And>sql d. P d \<Longrightarrow> P (snd (raw_scan c sql d))" and "\<And>t d. P d \<Longrightarrow> P (sleep c t d)"
  shows "P (db w) \<Longrightarrow> P (db (final (WaitForMigration c list w)))"
proof (induction list arbitrary: w)
  case Nil
  then show ?case by simp
next
  case (Cons x list)
  obtain name e where x: "x = (name, e)" by (cases x)
  have t: "P (db (final (WaitForMigration_table c attempts name 0 w)))"
  proof (rule table_db_invariant [where P = P])
    show "\<forall>sql d. P d \<longrightarrow> P (snd (raw_scan c sql d))" using assms(1) by blast
    show "\<forall>t d. P d \<longrightarrow> P (sleep c t d)" using assms(2) by blast
    show "P (db w)" by (rule Cons.prems)
  qed
  show ?case
  proof (cases "WaitForMigration_table c attempts name 0 w")
    case (Returned u w1)
    then show ?thesis using t Cons.IH [of w1] by (simp add: x)
  next
    case (Panicked p w1)
    then show ?thesis using t by (simp add: x)
  qed
qed

lemma seed_db_rows:
  assumes "seeds_insert_if_absent rows c"
  shows "rows s (seed_db c d) = (if rows s d = 0 then 1 else rows s d)"
  using assms
  by (cases s) (simp_all add: seeds_insert_if_absent_def insert_if_absent_def seed_db_def)

lemma MigrateDb_rows:
  assumes "seeds_insert_if_absent rows c" and "keeps_rows rows c"
    and "MigrateDb c es_m es_w w = Returned () w'"
  shows "rows s (db w') = (if rows s (db w) = 0 then 1 else rows s (db w))"
proof -
  from assms(3) obtain w1 w2 where m: "Migrate c es_m w = Returned () w1"
    and wt: "WaitForMigration c es_w w1 = Returned () w2"
    and w': "w' = advance w2 (seed_db c (db w2)) seed_calls"
    by (auto simp: MigrateDb_def and_then_Returned seeds_advance)
  have "rows s (db (final (Migrate c es_m w))) = rows s (db w)"
    unfolding Migrate_each
    by (rule each_db_invariant [where P = "\<lambda>d. rows s d = rows s (db w)"])
       (use assms(2) in \<open>simp_all add: keeps_rows_def\<close>)
  then have 1: "rows s (db w1) = rows s (db w)" by (simp add: m)
  have "rows s (db (final (WaitForMigration c es_w w1))) = rows s (db w)"
    by (rule WaitForMigration_db_invariant [where P = "\<lambda>d. rows s d = rows s (db w)"])
       (use assms(2) 1 in \<open>simp_all add: keeps_rows_def\<close>)
  then have 2: "rows s (db w2) = rows s (db w)" by (simp add: wt)
  show ?thesis by (simp add: w' seed_db_rows [OF assms(1)] 2)
qed

lemma sim_eval_simps:
  "auto_migrate sim_collab e d =
     (if e \<in> set (failing d) then (Some (Err ''cannot create table''), d)
      else (None, if e \<in> set (tables d) then d else d\<lparr>tables := e # tables d\<rparr>))"
  "drop_table_if_exists sim_collab e d =
     (if e \<in> set (failing d) then (Some (Err ''cannot drop table''), d)
      else (None, d\<lparr>tables := removeAll e (tables d)\<rparr>))"
  "raw_scan sim_collab sql d =
     (if offline d then (Some (Err ''no such table''), d)
      else if 0 < busy d then (Some (Err ''no such table''), d\<lparr>busy := busy d - 1\<rparr>)
      else (None, d))"
  "sleep sim_collab t d = d"
  "create_unknown_place sim_collab = sim_insert UnknownPlace"
  "create_unknown_country sim_collab = sim_insert UnknownCountry"
  "create_unknown_camera sim_collab = sim_insert UnknownCamera"
  "create_unknown_lens sim_collab = sim_insert UnknownLens"
  "create_test_fixtures sim_collab d = d\<lparr>fixtures := True\<rparr>"
  by (simp_all add: sim_collab_def)

lemma sim_seeds: "seeds_insert_if_absent sim_rows sim_collab"
  by (auto simp: seeds_insert_if_absent_def insert_if_absent_def sim_rows_def sim_eval_simps
      sim_insert_def count_list_0_iff)

lemma sim_keeps: "keeps_rows sim_rows sim_collab"
  by (simp add: keeps_rows_def sim_rows_def sim_eval_simps)

lemmas sim_run_simps =
  MigrateDb_def Migrate_each Drop_each WaitForMigration_table.simps RawScan_def
  Debugf_def emit_def advance_def sim_eval_simps start_def sim_db_def sim_insert_def
  CreateUnknownPlace_def CreateUnknownCountry_def CreateUnknownCamera_def
  CreateUnknownLens_def CreateTestFixtures_def describe_sql_def attempts_def
  ResetDb_def DropTables_def

lemma sim_first_run:
  "MigrateDb sim_collab [(''cameras'', Camera), (''lenses'', Lens)]
       [(''lenses'', Lens), (''cameras'', Camera)] (start sim_db) = Returned () sim_seeded_world"
  by (simp add: sim_run_simps sim_seeded_world_def)

lemma sim_second_run:
  "MigrateDb sim_collab [(''lenses'', Lens), (''cameras'', Camera)]
       [(''cameras'', Camera), (''lenses'', Lens)] sim_seeded_world =
   Returned () (advance sim_seeded_world (db sim_seeded_world)
     [AutoMigrateCall Lens, AutoMigrateCall Camera,
      RawScanCall ''DESCRIBE `cameras`'', DebugfCall ''entity: table cameras migrated'',
      RawScanCall ''DESCRIBE `lenses`'', DebugfCall ''entity: table lenses migrated'',
      CreateUnknownPlaceCall, CreateUnknownCountryCall,
      CreateUnknownCameraCall, CreateUnknownLensCall])"
  by (simp add: sim_run_simps sim_seeded_world_def)

lemma sim_reset_run:
  "ResetDb sim_collab [(''lenses'', Lens), (''cameras'', Camera)]
       [(''cameras'', Camera), (''lenses'', Lens)] [(''lenses'', Lens), (''cameras'', Camera)]
       b (start (sim_db\<lparr>tables := [Camera], seeded := [UnknownCamera]\<rparr>)) =
     Returned ()
       \<lparr>db = sim_db\<lparr>tables := [Lens, Camera],
                    seeded := [UnknownLens, UnknownCountry, UnknownPlace, UnknownCamera],
                    fixtures := b\<rparr>,
        trace = [DropTableIfExistsCall Lens, DropTableIfExistsCall Camera,
                 AutoMigrateCall Camera, AutoMigrateCall Lens,
                 RawScanCall ''DESCRIBE `lenses`'', DebugfCall ''entity: table lenses migrated'',
                 RawScanCall ''DESCRIBE `cameras`'', DebugfCall ''entity: table cameras migrated'',
                 CreateUnknownPlaceCall, CreateUnknownCountryCall,
                 CreateUnknownCameraCall, CreateUnknownLensCall]
                @ (if b then [CreateTestFixturesCall] else []),
        dbProvider = None, resetFixturesOnce = False\<rparr>"
  by (simp add: sim_run_simps)

lemma sim_init_run:
  "InitTestDb sim_collab [(''lenses'', Lens), (''cameras'', Camera)]
       [(''cameras'', Camera), (''lenses'', Lens)] [(''lenses'', Lens), (''cameras'', Camera)]
       ''root:root@tcp(db:3306)/test'' (start (sim_db\<lparr>tables := [Camera]\<rparr>)) =
     Returned (Some \<lparr>Driver = ''mysql'', Dsn = ''root:root@tcp(db:3306)/test''\<rparr>)
       \<lparr>db = sim_db\<lparr>tables := [Lens, Camera],
                    seeded := [UnknownLens, UnknownCamera, UnknownCountry, UnknownPlace],
                    fixtures := True\<rparr>,
        trace = [DropTableIfExistsCall Lens, DropTableIfExistsCall Camera,
                 AutoMigrateCall Camera, AutoMigrateCall Lens,
                 RawScanCall ''DESCRIBE `lenses`'', DebugfCall ''entity: table lenses migrated'',
                 RawScanCall ''DESCRIBE `cameras`'', DebugfCall ''entity: table cameras migrated'',
                 CreateUnknownPlaceCall, CreateUnknownCountryCall,
                 CreateUnknownCameraCall, CreateUnknownLensCall, CreateTestFixturesCall],
        dbProvider = Some \<lparr>Driver = ''mysql'', Dsn = ''root:root@tcp(db:3306)/test''\<rparr>,
        resetFixturesOnce = True\<rparr>"
  by (simp add: sim_run_simps InitTestDb_def InitTestFixtures_def HasDbProvider_def
      SetDbProvider_def Let_def)

section \<open>The claims\<close>

subsection \<open>WaitForMigration\<close>

text \<open>
  C1. The claim: for a table whose probe never succeeds, \<^verbatim>\<open>WaitForMigration\<close> makes
  exactly 100 probes before it panics, and never more than 100 for one table. The loop
  runs for \<open>i\<close> from 0 to \<open>attempts\<close> inclusive and panics in the round \<open>i = attempts\<close>,
  after the probe of that round: with the registry of the one table \<^verbatim>\<open>cameras\<close> and a
  database on which every probe fails, it panics after 101 probes and 100 sleeps.
\<close>

theorem WaitForMigration_never_ready_101_probes:
  "\<not> returned (WaitForMigration sim_collab [(''cameras'', Camera)] (start (sim_db\<lparr>offline := True\<rparr>)))
   \<and> probes (trace (final (WaitForMigration sim_collab [(''cameras'', Camera)]
                             (start (sim_db\<lparr>offline := True\<rparr>))))) = 101
   \<and> sleeps (trace (final (WaitForMigration sim_collab [(''cameras'', Camera)]
                             (start (sim_db\<lparr>offline := True\<rparr>))))) = replicate 100 (50 * Millisecond)"
proof -
  define w where "w = start (sim_db\<lparr>offline := True\<rparr>)"
  have "never_ready sim_collab ''cameras'' attempts (db w)"
    by (rule sim_offline_never_ready) (simp add: w_def start_def)
  then obtain d ts where
    r: "WaitForMigration_table sim_collab attempts ''cameras'' 0 w =
          Panicked (PanicString ''migration failed'') (advance w d ts)"
    and p: "probes ts = Suc attempts" and s: "sleeps ts = replicate attempts (50 * Millisecond)"
    using table_never_ready by blast
  have tr: "trace w = []" by (simp add: w_def start_def)
  have "WaitForMigration sim_collab [(''cameras'', Camera)] w =
          Panicked (PanicString ''migration failed'') (advance w d ts)"
    by (simp add: r)
  then show ?thesis
    unfolding w_def [symmetric] using p s by (simp add: tr attempts_def)
qed

text \<open>
  C2. A table whose probe first succeeds on attempt \<open>k\<close>, with \<open>k\<close> below the ceiling:
  the loop for the table returns after exactly \<open>k\<close> probes and \<open>k - 1\<close> sleeps of 50 ms
  each, and \<^verbatim>\<open>WaitForMigration\<close> goes on with the rest of the registry. For \<open>k = 1\<close>
  there is no sleep.
\<close>

theorem WaitForMigration_ready_on_kth_probe:
  assumes "first_ready_at c name k (db w)" and "k < attempts"
  shows "\<exists>w' ts. WaitForMigration_table c attempts name 0 w = Returned () w'
           \<and> trace w' = trace w @ ts \<and> probes ts = k
           \<and> sleeps ts = replicate (k - 1) (50 * Millisecond)
           \<and> WaitForMigration c ((name, e) # list) w = WaitForMigration c list w'"
proof -
  from assms(2) have "k \<le> Suc attempts" by simp
  from table_ready_at [OF assms(1) this] obtain d ts where
    r: "WaitForMigration_table c attempts name 0 w = Returned () (advance w d ts)"
    and p: "probes ts = k" and s: "sleeps ts = replicate (k - 1) (50 * Millisecond)"
    by blast
  have "WaitForMigration c ((name, e) # list) w = WaitForMigration c list (advance w d ts)"
    by (simp add: r)
  with r p s show ?thesis by (intro exI [of _ "advance w d ts"] exI [of _ ts]) simp
qed

theorem WaitForMigration_ready_on_kth_probe_witness:
  "probes (trace (final (WaitForMigration_table sim_collab attempts ''cameras'' 0
                           (start (sim_db\<lparr>busy := 2\<rparr>))))) = 3
   \<and> sleeps (trace (final (WaitForMigration_table sim_collab attempts ''cameras'' 0
                           (start (sim_db\<lparr>busy := 2\<rparr>))))) = [50 * Millisecond, 50 * Millisecond]
   \<and> probes (trace (final (WaitForMigration_table sim_collab attempts ''lenses'' 0 (start sim_db)))) = 1
   \<and> sleeps (trace (final (WaitForMigration_table sim_collab attempts ''lenses'' 0 (start sim_db)))) = []"
proof -
  have h3: "first_ready_at sim_collab ''cameras'' 3 (db (start (sim_db\<lparr>busy := 2\<rparr>)))"
    using sim_busy_first_ready [of "sim_db\<lparr>busy := 2\<rparr>" "''cameras''"]
    by (simp add: start_def sim_db_def)
  have h1: "first_ready_at sim_collab ''lenses'' 1 (db (start sim_db))"
    using sim_busy_first_ready [of sim_db "''lenses''"]
    by (simp add: start_def sim_db_def)
  have k3: "3 < attempts" and k1: "1 < attempts" by (simp_all add: attempts_def)
  from WaitForMigration_ready_on_kth_probe [OF h3 k3, of Camera "[]"]
       WaitForMigration_ready_on_kth_probe [OF h1 k1, of Lens "[]"]
  show ?thesis
    by (auto simp: start_def eval_nat_numeral)
qed

subsection \<open>MigrateDb and ResetDb\<close>

text \<open>
  C3. A run of \<^verbatim>\<open>MigrateDb\<close> that returns has made, in this order, one schema-create
  call for each entry of the registry, then the probes, log lines and sleeps of the wait
  (at least one probe for each table), then the four seed insertions, once each. When
  the registry holds exactly \<^verbatim>\<open>cameras\<close> and \<^verbatim>\<open>lenses\<close>, no schema creation fails and
  each table is readable on its first probe, \<^verbatim>\<open>MigrateDb\<close> returns after exactly 2
  create calls, 2 probes, no sleep and the 4 seed insertions.
\<close>

theorem MigrateDb_create_wait_seed:
  "(\<forall>w'. MigrateDb c es_m es_w w = Returned () w' \<longrightarrow>
      (\<exists>ts. trace w' = trace w @ map (AutoMigrateCall \<circ> snd) es_m @ ts @ seed_calls
          \<and> list_all wait_event ts \<and> length es_w \<le> probes ts))
   \<and> (visits [(''cameras'', Camera), (''lenses'', Lens)] es_m
      \<and> visits [(''cameras'', Camera), (''lenses'', Lens)] es_w
      \<and> calls_ok (auto_migrate c) (map snd es_m) (db w)
      \<and> calls_ok (probe c) (map fst es_w) (run_calls (auto_migrate c) (map snd es_m) (db w)) \<longrightarrow>
      (\<exists>w' ts. MigrateDb c es_m es_w w = Returned () w' \<and> trace w' = trace w @ ts
          \<and> length (creates ts) = 2 \<and> probes ts = 2 \<and> sleeps ts = []
          \<and> seedings ts = seed_calls))"
proof (intro conjI allI impI)
  fix w' assume "MigrateDb c es_m es_w w = Returned () w'"
  from MigrateDb_returned [OF this] obtain d ts where
    "w' = advance w d (map (AutoMigrateCall \<circ> snd) es_m @ ts @ seed_calls)"
    "list_all wait_event ts" "length es_w \<le> probes ts" by blast
  then show "\<exists>ts. trace w' = trace w @ map (AutoMigrateCall \<circ> snd) es_m @ ts @ seed_calls
          \<and> list_all wait_event ts \<and> length es_w \<le> probes ts"
    by (intro exI [of _ ts]) simp
next
  assume a: "visits [(''cameras'', Camera), (''lenses'', Lens)] es_m
      \<and> visits [(''cameras'', Camera), (''lenses'', Lens)] es_w
      \<and> calls_ok (auto_migrate c) (map snd es_m) (db w)
      \<and> calls_ok (probe c) (map fst es_w) (run_calls (auto_migrate c) (map snd es_m) (db w))"
  then have lm: "length es_m = 2" and lw: "length es_w = 2"
    using visits_length [of "[(''cameras'', Camera), (''lenses'', Lens)]"] by auto
  define ts where "ts = map (AutoMigrateCall \<circ> snd) es_m @
                          concat (map (ready_events \<circ> fst) es_w) @ seed_calls"
  from a MigrateDb_first_attempt [of c es_m w es_w] obtain d where
    r: "MigrateDb c es_m es_w w = Returned () (advance w d ts)"
    unfolding ts_def by blast
  have "length (creates ts) = 2"
    by (simp add: ts_def creates_append creates_creates creates_wait [OF ready_events_wait]
        seed_calls_obs lm)
  moreover have "probes ts = 2"
    by (simp add: ts_def probes_append probes_creates probes_ready seed_calls_obs lw)
  moreover have "sleeps ts = []"
    by (simp add: ts_def sleeps_append sleeps_creates sleeps_ready seed_calls_obs)
  moreover have "seedings ts = seed_calls"
    by (simp add: ts_def seedings_append seedings_creates seedings_wait [OF ready_events_wait]
        seed_calls_obs)
  ultimately show "\<exists>w' ts. MigrateDb c es_m es_w w = Returned () w' \<and> trace w' = trace w @ ts
          \<and> length (creates ts) = 2 \<and> probes ts = 2 \<and> sleeps ts = []
          \<and> seedings ts = seed_calls"
    using r by (intro exI [of _ "advance w d ts"] exI [of _ ts]) simp
qed

theorem MigrateDb_create_wait_seed_witness:
  "MigrateDb sim_collab [(''cameras'', Camera), (''lenses'', Lens)]
       [(''lenses'', Lens), (''cameras'', Camera)] (start sim_db) =
     Returned ()
       \<lparr>db = sim_db\<lparr>tables := [Lens, Camera],
                    seeded := [UnknownLens, UnknownCamera, UnknownCountry, UnknownPlace]\<rparr>,
        trace = [AutoMigrateCall Camera, AutoMigrateCall Lens,
                 RawScanCall ''DESCRIBE `lenses`'', DebugfCall ''entity: table lenses migrated'',
                 RawScanCall ''DESCRIBE `cameras`'', DebugfCall ''entity: table cameras migrated'',
                 CreateUnknownPlaceCall, CreateUnknownCountryCall,
                 CreateUnknownCameraCall, CreateUnknownLensCall],
        dbProvider = None, resetFixturesOnce = False\<rparr>"
proof -
  let ?m = "[(''cameras'', Camera), (''lenses'', Lens)]"
  let ?w = "[(''lenses'', Lens), (''cameras'', Camera)]"
  have v: "visits [(''cameras'', Camera), (''lenses'', Lens)] ?m"
    "visits [(''cameras'', Camera), (''lenses'', Lens)] ?w"
    by (auto simp: visits_def)
  have m: "calls_ok (auto_migrate sim_collab) (map snd ?m) (db (start sim_db))"
    by (simp add: sim_eval_simps start_def sim_db_def)
  have p: "calls_ok (probe sim_collab) (map fst ?w)
             (run_calls (auto_migrate sim_collab) (map snd ?m) (db (start sim_db)))"
    by (simp add: sim_eval_simps start_def sim_db_def probe_def)
  from MigrateDb_create_wait_seed [of sim_collab ?m ?w "start sim_db"] v m p
  obtain w' ts where r: "MigrateDb sim_collab ?m ?w (start sim_db) = Returned () w'"
    and "trace w' = trace (start sim_db) @ ts" "length (creates ts) = 2" "probes ts = 2"
    by blast
  have e: "MigrateDb sim_collab ?m ?w (start sim_db) =
             Returned () (final (MigrateDb sim_collab ?m ?w (start sim_db)))"
    by (simp add: r)
  show ?thesis
    by (subst e)
       (simp add: MigrateDb_def Migrate_each WaitForMigration_table.simps RawScan_def
         Debugf_def emit_def advance_def sim_eval_simps start_def sim_db_def sim_insert_def
         CreateUnknownPlace_def CreateUnknownCountry_def CreateUnknownCamera_def
         CreateUnknownLens_def describe_sql_def attempts_def)
qed

text \<open>
  C4. A run of \<^verbatim>\<open>ResetDb\<close> that returns has dropped the tables of all entries, then
  run \<^verbatim>\<open>MigrateDb\<close> (create, wait, seed), then called the fixture routine if
  \<open>testFixtures\<close> is true, and nothing else. In every run, also one that a panic ends,
  the fixture routine is called once if \<open>testFixtures\<close> is true and the run gets past
  \<^verbatim>\<open>MigrateDb\<close>, and not at all otherwise.
\<close>

theorem ResetDb_drop_migrate_fixtures:
  "(\<forall>w'. ResetDb c es_d es_m es_w testFixtures w = Returned () w' \<longrightarrow>
      (\<exists>w1 w2 ts. DropTables c es_d w = Returned () w1
         \<and> MigrateDb c es_m es_w w1 = Returned () w2
         \<and> w' = (if testFixtures then CreateTestFixtures c w2 else w2)
         \<and> trace w' = trace w @ map (DropTableIfExistsCall \<circ> snd) es_d
               @ map (AutoMigrateCall \<circ> snd) es_m @ ts @ seed_calls
               @ (if testFixtures then [CreateTestFixturesCall] else [])
         \<and> list_all wait_event ts))
   \<and> (\<exists>ts. trace (final (ResetDb c es_d es_m es_w testFixtures w)) = trace w @ ts
         \<and> count_list ts CreateTestFixturesCall =
             (if testFixtures \<and> returned (ResetDb c es_d es_m es_w testFixtures w) then 1 else 0))"
proof (intro conjI allI impI)
  fix w' assume r: "ResetDb c es_d es_m es_w testFixtures w = Returned () w'"
  then obtain w1 w2 where d: "DropTables c es_d w = Returned () w1"
    and m: "MigrateDb c es_m es_w w1 = Returned () w2"
    and w': "w' = (if testFixtures then CreateTestFixtures c w2 else w2)"
    by (auto simp: ResetDb_def and_then_Returned)
  from d obtain d1 where w1: "w1 = advance w d1 (map (DropTableIfExistsCall \<circ> snd) es_d)"
    using Drop_final [of es_d c w] by (auto simp: DropTables_def)
  from MigrateDb_returned [OF m] obtain d2 ts where
    w2: "w2 = advance w1 d2 (map (AutoMigrateCall \<circ> snd) es_m @ ts @ seed_calls)"
    and ev: "list_all wait_event ts" by blast
  have "trace w' = trace w @ map (DropTableIfExistsCall \<circ> snd) es_d
               @ map (AutoMigrateCall \<circ> snd) es_m @ ts @ seed_calls
               @ (if testFixtures then [CreateTestFixturesCall] else [])"
    by (simp add: w' w2 w1 fixtures_advance)
  with d m w' ev
  show "\<exists>w1 w2 ts. DropTables c es_d w = Returned () w1
         \<and> MigrateDb c es_m es_w w1 = Returned () w2
         \<and> w' = (if testFixtures then CreateTestFixtures c w2 else w2)
         \<and> trace w' = trace w @ map (DropTableIfExistsCall \<circ> snd) es_d
               @ map (AutoMigrateCall \<circ> snd) es_m @ ts @ seed_calls
               @ (if testFixtures then [CreateTestFixturesCall] else [])
         \<and> list_all wait_event ts"
    by blast
next
  obtain d ts where "final (ResetDb c es_d es_m es_w testFixtures w) = advance w d ts"
    and "count_list ts CreateTestFixturesCall =
         (if testFixtures \<and> returned (ResetDb c es_d es_m es_w testFixtures w) then 1 else 0)"
    using ResetDb_final [of c es_d es_m es_w testFixtures w] by blast
  then show "\<exists>ts. trace (final (ResetDb c es_d es_m es_w testFixtures w)) = trace w @ ts
         \<and> count_list ts CreateTestFixturesCall =
             (if testFixtures \<and> returned (ResetDb c es_d es_m es_w testFixtures w) then 1 else 0)"
    by (intro exI [of _ ts]) simp
qed

theorem ResetDb_drop_migrate_fixtures_witness:
  "returned (ResetDb sim_collab [(''lenses'', Lens), (''cameras'', Camera)]
       [(''cameras'', Camera), (''lenses'', Lens)] [(''lenses'', Lens), (''cameras'', Camera)]
       True (start (sim_db\<lparr>tables := [Camera], seeded := [UnknownCamera]\<rparr>)))
   \<and> count_list (trace (final (ResetDb sim_collab [(''lenses'', Lens), (''cameras'', Camera)]
       [(''cameras'', Camera), (''lenses'', Lens)] [(''lenses'', Lens), (''cameras'', Camera)]
       True (start (sim_db\<lparr>tables := [Camera], seeded := [UnknownCamera]\<rparr>)))))
       CreateTestFixturesCall = 1
   \<and> returned (ResetDb sim_collab [(''lenses'', Lens), (''cameras'', Camera)]
       [(''cameras'', Camera), (''lenses'', Lens)] [(''lenses'', Lens), (''cameras'', Camera)]
       False (start (sim_db\<lparr>tables := [Camera], seeded := [UnknownCamera]\<rparr>)))
   \<and> count_list (trace (final (ResetDb sim_collab [(''lenses'', Lens), (''cameras'', Camera)]
       [(''cameras'', Camera), (''lenses'', Lens)] [(''lenses'', Lens), (''cameras'', Camera)]
       False (start (sim_db\<lparr>tables := [Camera], seeded := [UnknownCamera]\<rparr>)))))
       CreateTestFixturesCall = 0"
proof -
  let ?d = "[(''lenses'', Lens), (''cameras'', Camera)]"
  let ?m = "[(''cameras'', Camera), (''lenses'', Lens)]"
  let ?w = "start (sim_db\<lparr>tables := [Camera], seeded := [UnknownCamera]\<rparr>)"
  have tr: "trace ?w = []" by (simp add: start_def)
  have r: "returned (ResetDb sim_collab ?d ?m ?d b ?w)" for b
    unfolding sim_reset_run by simp
  from ResetDb_drop_migrate_fixtures [of sim_collab ?d ?m ?d True ?w]
  obtain ts where "trace (final (ResetDb sim_collab ?d ?m ?d True ?w)) = trace ?w @ ts"
    and "count_list ts CreateTestFixturesCall =
           (if True \<and> returned (ResetDb sim_collab ?d ?m ?d True ?w) then 1 else 0)"
    by blast
  then have 1: "count_list (trace (final (ResetDb sim_collab ?d ?m ?d True ?w)))
                  CreateTestFixturesCall = 1"
    using r [of True] by (simp only: tr append_Nil if_True simp_thms)
  from ResetDb_drop_migrate_fixtures [of sim_collab ?d ?m ?d False ?w]
  obtain ts' where "trace (final (ResetDb sim_collab ?d ?m ?d False ?w)) = trace ?w @ ts'"
    and "count_list ts' CreateTestFixturesCall =
           (if False \<and> returned (ResetDb sim_collab ?d ?m ?d False ?w) then 1 else 0)"
    by blast
  then have 2: "count_list (trace (final (ResetDb sim_collab ?d ?m ?d False ?w)))
                  CreateTestFixturesCall = 0"
    by (simp only: tr append_Nil if_False simp_thms)
  from 1 2 r [of True] r [of False] show ?thesis by (simp only: simp_thms)
qed

text \<open>
  C5. With seed constructors that insert if absent, and schema creation, probes and
  sleeps that leave the default rows alone: after \<^verbatim>\<open>MigrateDb\<close> has run a second time,
  every reference entity has as many default rows as after the first run; and when the
  database had at most one default row of it before the first run, it has exactly one
  after the first run and after the second.
\<close>

theorem MigrateDb_twice_same_seed_rows:
  assumes "seeds_insert_if_absent rows c" and "keeps_rows rows c"
    and "MigrateDb c es_m es_w w = Returned () w1"
    and "MigrateDb c es_m' es_w' w1 = Returned () w2"
  shows "rows s (db w2) = rows s (db w1)
       \<and> (rows s (db w) \<le> 1 \<longrightarrow> rows s (db w1) = 1 \<and> rows s (db w2) = 1)"
  using MigrateDb_rows [OF assms(1,2,3), of s] MigrateDb_rows [OF assms(1,2,4), of s]
  by auto

theorem MigrateDb_twice_same_seed_rows_witness:
  "MigrateDb sim_collab [(''cameras'', Camera), (''lenses'', Lens)]
       [(''lenses'', Lens), (''cameras'', Camera)] (start sim_db) = Returned () sim_seeded_world
   \<and> sim_rows UnknownCamera (db sim_seeded_world) = 1
   \<and> sim_rows UnknownCamera (db (final (MigrateDb sim_collab [(''lenses'', Lens), (''cameras'', Camera)]
       [(''cameras'', Camera), (''lenses'', Lens)] sim_seeded_world))) = 1"
proof -
  have 0: "sim_rows UnknownCamera (db (start sim_db)) \<le> 1"
    by (simp add: sim_rows_def start_def sim_db_def)
  from MigrateDb_twice_same_seed_rows [OF sim_seeds sim_keeps sim_first_run sim_second_run,
      of UnknownCamera] 0
  show ?thesis unfolding sim_second_run sim_first_run by simp
qed

subsection \<open>Migrate and Drop\<close>

text \<open>
  C6. \<^verbatim>\<open>Migrate\<close> returns if and only if no schema-create call reports an error, each
  call made in the database the calls before it left; it has then made one call for
  every entry of the registry. When the call for an entry reports an error, after calls
  that reported none, \<^verbatim>\<open>Migrate\<close> panics with that error. A panic is the only other way
  it ends, and the value of the panic is always the error of a call: no error is handed
  to the caller. The same holds for \<^verbatim>\<open>Drop\<close> and the table-drop calls.
\<close>

theorem Migrate_Drop_panic_on_error:
  "returned (Migrate c list w) = calls_ok (auto_migrate c) (map snd list) (db w)
   \<and> (calls_ok (auto_migrate c) (map snd list) (db w) \<longrightarrow>
        (\<exists>w'. Migrate c list w = Returned () w'
           \<and> trace w' = trace w @ map (AutoMigrateCall \<circ> snd) list))
   \<and> (\<forall>i err. i < length list
        \<and> calls_ok (auto_migrate c) (map snd (take i list)) (db w)
        \<and> fst (auto_migrate c (snd (list ! i))
                 (run_calls (auto_migrate c) (map snd (take i list)) (db w))) = Some err \<longrightarrow>
        (\<exists>w'. Migrate c list w = Panicked (PanicError err) w'))
   \<and> (\<forall>p w'. Migrate c list w = Panicked p w' \<longrightarrow> (\<exists>err. p = PanicError err))
   \<and> returned (Drop c list w) = calls_ok (drop_table_if_exists c) (map snd list) (db w)
   \<and> (calls_ok (drop_table_if_exists c) (map snd list) (db w) \<longrightarrow>
        (\<exists>w'. Drop c list w = Returned () w'
           \<and> trace w' = trace w @ map (DropTableIfExistsCall \<circ> snd) list))
   \<and> (\<forall>i err. i < length list
        \<and> calls_ok (drop_table_if_exists c) (map snd (take i list)) (db w)
        \<and> fst (drop_table_if_exists c (snd (list ! i))
                 (run_calls (drop_table_if_exists c) (map snd (take i list)) (db w))) = Some err \<longrightarrow>
        (\<exists>w'. Drop c list w = Panicked (PanicError err) w'))
   \<and> (\<forall>p w'. Drop c list w = Panicked p w' \<longrightarrow> (\<exists>err. p = PanicError err))"
proof -
  have gen: "returned (each_or_panic f ev list w) = calls_ok f (map snd list) (db w)
   \<and> (calls_ok f (map snd list) (db w) \<longrightarrow>
        (\<exists>w'. each_or_panic f ev list w = Returned () w'
           \<and> trace w' = trace w @ map (ev \<circ> snd) list))
   \<and> (\<forall>i err. i < length list
        \<and> calls_ok f (map snd (take i list)) (db w)
        \<and> fst (f (snd (list ! i)) (run_calls f (map snd (take i list)) (db w))) = Some err \<longrightarrow>
        (\<exists>w'. each_or_panic f ev list w = Panicked (PanicError err) w'))
   \<and> (\<forall>p w'. each_or_panic f ev list w = Panicked p w' \<longrightarrow> (\<exists>err. p = PanicError err))"
    for f :: "entity \<Rightarrow> 'a \<Rightarrow> error option \<times> 'a" and ev
  proof (intro conjI allI impI)
    show "returned (each_or_panic f ev list w) = calls_ok f (map snd list) (db w)"
      by (rule each_returned_iff)
  next
    assume "calls_ok f (map snd list) (db w)"
    from each_returns [OF this, of ev]
    show "\<exists>w'. each_or_panic f ev list w = Returned () w'
           \<and> trace w' = trace w @ map (ev \<circ> snd) list"
      by simp
  next
    fix i err
    assume a: "i < length list
        \<and> calls_ok f (map snd (take i list)) (db w)
        \<and> fst (f (snd (list ! i)) (run_calls f (map snd (take i list)) (db w))) = Some err"
    obtain d' where "f (snd (list ! i)) (run_calls f (map snd (take i list)) (db w)) = (Some err, d')"
      using a by (cases "f (snd (list ! i)) (run_calls f (map snd (take i list)) (db w))") auto
    with each_panics [of i list f w err d' ev] a
    show "\<exists>w'. each_or_panic f ev list w = Panicked (PanicError err) w'" by blast
  next
    fix p w' assume "each_or_panic f ev list w = Panicked p w'"
    then show "\<exists>err. p = PanicError err" by (rule each_panic_value)
  qed
  from gen [of "auto_migrate c" AutoMigrateCall] gen [of "drop_table_if_exists c" DropTableIfExistsCall]
  show ?thesis unfolding Migrate_each Drop_each by blast
qed

theorem Migrate_Drop_panic_on_error_witness:
  "Migrate sim_collab [(''cameras'', Camera), (''lenses'', Lens)] (start sim_db) =
     Returned () (advance (start sim_db) (sim_db\<lparr>tables := [Lens, Camera]\<rparr>)
                    [AutoMigrateCall Camera, AutoMigrateCall Lens])
   \<and> Migrate sim_collab [(''cameras'', Camera), (''lenses'', Lens)]
        (start (sim_db\<lparr>failing := [Lens]\<rparr>)) =
     Panicked (PanicError (Err ''cannot create table''))
       (advance (start (sim_db\<lparr>failing := [Lens]\<rparr>)) (sim_db\<lparr>tables := [Camera], failing := [Lens]\<rparr>)
          [AutoMigrateCall Camera, AutoMigrateCall Lens])
   \<and> Drop sim_collab [(''cameras'', Camera), (''lenses'', Lens)]
        (start (sim_db\<lparr>tables := [Lens, Camera]\<rparr>)) =
     Returned () (advance (start (sim_db\<lparr>tables := [Lens, Camera]\<rparr>)) sim_db
                    [DropTableIfExistsCall Camera, DropTableIfExistsCall Lens])
   \<and> Drop sim_collab [(''cameras'', Camera), (''lenses'', Lens)]
        (start (sim_db\<lparr>tables := [Lens, Camera], failing := [Lens]\<rparr>)) =
     Panicked (PanicError (Err ''cannot drop table''))
       (advance (start (sim_db\<lparr>tables := [Lens, Camera], failing := [Lens]\<rparr>))
          (sim_db\<lparr>tables := [Lens], failing := [Lens]\<rparr>)
          [DropTableIfExistsCall Camera, DropTableIfExistsCall Lens])"
proof -
  let ?reg = "[(''cameras'', Camera), (''lenses'', Lens)]"
  let ?w1 = "start sim_db"
  let ?w2 = "start (sim_db\<lparr>failing := [Lens]\<rparr>)"
  let ?w3 = "start (sim_db\<lparr>tables := [Lens, Camera]\<rparr>)"
  let ?w4 = "start (sim_db\<lparr>tables := [Lens, Camera], failing := [Lens]\<rparr>)"
  have ok1: "calls_ok (auto_migrate sim_collab) (map snd ?reg) (db ?w1)"
    by (simp add: sim_eval_simps start_def sim_db_def)
  have ok3: "calls_ok (drop_table_if_exists sim_collab) (map snd ?reg) (db ?w3)"
    by (simp add: sim_eval_simps start_def sim_db_def)
  have bad2: "(1::nat) < length ?reg
        \<and> calls_ok (auto_migrate sim_collab) (map snd (take 1 ?reg)) (db ?w2)
        \<and> fst (auto_migrate sim_collab (snd (?reg ! 1))
                 (run_calls (auto_migrate sim_collab) (map snd (take 1 ?reg)) (db ?w2)))
            = Some (Err ''cannot create table'')"
    by (simp add: sim_eval_simps start_def sim_db_def)
  have bad4: "(1::nat) < length ?reg
        \<and> calls_ok (drop_table_if_exists sim_collab) (map snd (take 1 ?reg)) (db ?w4)
        \<and> fst (drop_table_if_exists sim_collab (snd (?reg ! 1))
                 (run_calls (drop_table_if_exists sim_collab) (map snd (take 1 ?reg)) (db ?w4)))
            = Some (Err ''cannot drop table'')"
    by (simp add: sim_eval_simps start_def sim_db_def)
  from Migrate_Drop_panic_on_error [of sim_collab ?reg ?w1] ok1
  obtain v1 where r1: "Migrate sim_collab ?reg ?w1 = Returned () v1" by blast
  from Migrate_Drop_panic_on_error [of sim_collab ?reg ?w2] bad2
  obtain v2 where r2: "Migrate sim_collab ?reg ?w2 = Panicked (PanicError (Err ''cannot create table'')) v2"
    by blast
  from Migrate_Drop_panic_on_error [of sim_collab ?reg ?w3] ok3
  obtain v3 where r3: "Drop sim_collab ?reg ?w3 = Returned () v3" by blast
  from Migrate_Drop_panic_on_error [of sim_collab ?reg ?w4] bad4
  obtain v4 where r4: "Drop sim_collab ?reg ?w4 = Panicked (PanicError (Err ''cannot drop table'')) v4"
    by blast
  have e1: "v1 = final (Migrate sim_collab ?reg ?w1)" unfolding r1 by simp
  have e2: "v2 = final (Migrate sim_collab ?reg ?w2)" unfolding r2 by simp
  have e3: "v3 = final (Drop sim_collab ?reg ?w3)" unfolding r3 by simp
  have e4: "v4 = final (Drop sim_collab ?reg ?w4)" unfolding r4 by simp
  have f1: "final (Migrate sim_collab ?reg ?w1) =
       advance ?w1 (sim_db\<lparr>tables := [Lens, Camera]\<rparr>) [AutoMigrateCall Camera, AutoMigrateCall Lens]"
    by (simp add: Migrate_each sim_eval_simps start_def sim_db_def advance_def)
  have f2: "final (Migrate sim_collab ?reg ?w2) =
       advance ?w2 (sim_db\<lparr>tables := [Camera], failing := [Lens]\<rparr>)
          [AutoMigrateCall Camera, AutoMigrateCall Lens]"
    by (simp add: Migrate_each sim_eval_simps start_def sim_db_def advance_def)
  have f3: "final (Drop sim_collab ?reg ?w3) =
       advance ?w3 sim_db [DropTableIfExistsCall Camera, DropTableIfExistsCall Lens]"
    by (simp add: Drop_each sim_eval_simps start_def sim_db_def advance_def)
  have f4: "final (Drop sim_collab ?reg ?w4) =
       advance ?w4 (sim_db\<lparr>tables := [Lens], failing := [Lens]\<rparr>)
          [DropTableIfExistsCall Camera, DropTableIfExistsCall Lens]"
    by (simp add: Drop_each sim_eval_simps start_def sim_db_def advance_def)
  note g1 = trans [OF e1 f1] and g2 = trans [OF e2 f2]
    and g3 = trans [OF e3 f3] and g4 = trans [OF e4 f4]
  show ?thesis
    by (simp only: r1 r2 r3 r4 g1 g2 g3 g4 simp_thms)
qed

text \<open>
  C9. When the call for entry \<open>i\<close> reports an error, the world in which \<^verbatim>\<open>Migrate\<close>
  panics has the database that the calls for the entries before \<open>i\<close> and the failing
  call have left, and its trace ends with exactly these calls: the calls before the
  failing one have taken effect, and no call undoes them. The same holds for \<^verbatim>\<open>Drop\<close>.
\<close>

theorem Migrate_Drop_not_atomic:
  "(\<forall>i err d'. i < length list
      \<and> calls_ok (auto_migrate c) (map snd (take i list)) (db w)
      \<and> auto_migrate c (snd (list ! i))
           (run_calls (auto_migrate c) (map snd (take i list)) (db w)) = (Some err, d') \<longrightarrow>
      Migrate c list w =
        Panicked (PanicError err)
          (w\<lparr>db := d', trace := trace w @ map (AutoMigrateCall \<circ> snd) (take (Suc i) list)\<rparr>))
   \<and> (\<forall>i err d'. i < length list
      \<and> calls_ok (drop_table_if_exists c) (map snd (take i list)) (db w)
      \<and> drop_table_if_exists c (snd (list ! i))
           (run_calls (drop_table_if_exists c) (map snd (take i list)) (db w)) = (Some err, d') \<longrightarrow>
      Drop c list w =
        Panicked (PanicError err)
          (w\<lparr>db := d', trace := trace w @ map (DropTableIfExistsCall \<circ> snd) (take (Suc i) list)\<rparr>))"
proof (intro conjI allI impI)
  fix i err d'
  assume "i < length list
      \<and> calls_ok (auto_migrate c) (map snd (take i list)) (db w)
      \<and> auto_migrate c (snd (list ! i))
           (run_calls (auto_migrate c) (map snd (take i list)) (db w)) = (Some err, d')"
  with each_panics [of i list "auto_migrate c" w err d' AutoMigrateCall]
  show "Migrate c list w =
        Panicked (PanicError err)
          (w\<lparr>db := d', trace := trace w @ map (AutoMigrateCall \<circ> snd) (take (Suc i) list)\<rparr>)"
    unfolding Migrate_each advance_def by blast
next
  fix i err d'
  assume "i < length list
      \<and> calls_ok (drop_table_if_exists c) (map snd (take i list)) (db w)
      \<and> drop_table_if_exists c (snd (list ! i))
           (run_calls (drop_table_if_exists c) (map snd (take i list)) (db w)) = (Some err, d')"
  with each_panics [of i list "drop_table_if_exists c" w err d' DropTableIfExistsCall]
  show "Drop c list w =
        Panicked (PanicError err)
          (w\<lparr>db := d', trace := trace w @ map (DropTableIfExistsCall \<circ> snd) (take (Suc i) list)\<rparr>)"
    unfolding Drop_each advance_def by blast
qed

theorem Migrate_Drop_not_atomic_witness:
  "Migrate sim_collab [(''photos'', Photo), (''cameras'', Camera), (''lenses'', Lens)]
     (start (sim_db\<lparr>failing := [Lens]\<rparr>)) =
     Panicked (PanicError (Err ''cannot create table''))
       \<lparr>db = sim_db\<lparr>tables := [Camera, Photo], failing := [Lens]\<rparr>,
        trace = [AutoMigrateCall Photo, AutoMigrateCall Camera, AutoMigrateCall Lens],
        dbProvider = None, resetFixturesOnce = False\<rparr>
   \<and> Drop sim_collab [(''photos'', Photo), (''cameras'', Camera), (''lenses'', Lens)]
     (start (sim_db\<lparr>tables := [Lens, Camera, Photo], failing := [Lens]\<rparr>)) =
     Panicked (PanicError (Err ''cannot drop table''))
       \<lparr>db = sim_db\<lparr>tables := [Lens], failing := [Lens]\<rparr>,
        trace = [DropTableIfExistsCall Photo, DropTableIfExistsCall Camera,
                 DropTableIfExistsCall Lens],
        dbProvider = None, resetFixturesOnce = False\<rparr>"
proof -
  let ?reg = "[(''photos'', Photo), (''cameras'', Camera), (''lenses'', Lens)]"
  let ?w1 = "start (sim_db\<lparr>failing := [Lens]\<rparr>)"
  let ?w2 = "start (sim_db\<lparr>tables := [Lens, Camera, Photo], failing := [Lens]\<rparr>)"
  have m: "(2::nat) < length ?reg
      \<and> calls_ok (auto_migrate sim_collab) (map snd (take 2 ?reg)) (db ?w1)
      \<and> auto_migrate sim_collab (snd (?reg ! 2))
           (run_calls (auto_migrate sim_collab) (map snd (take 2 ?reg)) (db ?w1)) =
         (Some (Err ''cannot create table''), sim_db\<lparr>tables := [Camera, Photo], failing := [Lens]\<rparr>)"
    by (simp add: sim_eval_simps start_def sim_db_def eval_nat_numeral)
  have d: "(2::nat) < length ?reg
      \<and> calls_ok (drop_table_if_exists sim_collab) (map snd (take 2 ?reg)) (db ?w2)
      \<and> drop_table_if_exists sim_collab (snd (?reg ! 2))
           (run_calls (drop_table_if_exists sim_collab) (map snd (take 2 ?reg)) (db ?w2)) =
         (Some (Err ''cannot drop table''), sim_db\<lparr>tables := [Lens], failing := [Lens]\<rparr>)"
    by (simp add: sim_eval_simps start_def sim_db_def eval_nat_numeral)
  from Migrate_Drop_not_atomic [of ?reg sim_collab ?w1] m
  have 1: "Migrate sim_collab ?reg ?w1 =
        Panicked (PanicError (Err ''cannot create table''))
          (?w1\<lparr>db := sim_db\<lparr>tables := [Camera, Photo], failing := [Lens]\<rparr>,
               trace := trace ?w1 @ map (AutoMigrateCall \<circ> snd) (take (Suc 2) ?reg)\<rparr>)"
    by blast
  from Migrate_Drop_not_atomic [of ?reg sim_collab ?w2] d
  have 2: "Drop sim_collab ?reg ?w2 =
        Panicked (PanicError (Err ''cannot drop table''))
          (?w2\<lparr>db := sim_db\<lparr>tables := [Lens], failing := [Lens]\<rparr>,
               trace := trace ?w2 @ map (DropTableIfExistsCall \<circ> snd) (take (Suc 2) ?reg)\<rparr>)"
    by blast
  show ?thesis unfolding 1 2 by (simp add: start_def)
qed

subsection \<open>InitTestDb\<close>

text \<open>
  C7. When a provider is registered, \<^verbatim>\<open>InitTestDb\<close> returns \<^verbatim>\<open>nil\<close> and leaves the
  world as it is: no provider is registered, the \<^verbatim>\<open>sync.Once\<close> is not touched, and no
  drop, create, probe, seed or fixture call is made.
\<close>

theorem InitTestDb_provider_registered:
  assumes "HasDbProvider w"
  shows "InitTestDb c es_d es_m es_w dsn w = Returned None w"
  using assms by (simp add: InitTestDb_def)

theorem InitTestDb_provider_registered_witness:
  "InitTestDb sim_collab Entities Entities Entities ''photoprism:photoprism@tcp(localhost:4001)/photoprism''
     ((start sim_db)\<lparr>dbProvider := Some \<lparr>Driver = ''mysql'', Dsn = ''root:root@tcp(db:3306)/test''\<rparr>\<rparr>) =
   Returned None
     ((start sim_db)\<lparr>dbProvider := Some \<lparr>Driver = ''mysql'', Dsn = ''root:root@tcp(db:3306)/test''\<rparr>\<rparr>)"
  by (rule InitTestDb_provider_registered) (simp add: HasDbProvider_def)

text \<open>
  C10. When no provider is registered, \<^verbatim>\<open>InitTestDb\<close> registers the handle with driver
  \<^verbatim>\<open>mysql\<close> and the given \<^verbatim>\<open>dsn\<close>, then runs \<^verbatim>\<open>InitTestFixtures\<close> in the world that has
  this provider, and returns the handle if \<^verbatim>\<open>InitTestFixtures\<close> returns (it does at once
  when the \<^verbatim>\<open>sync.Once\<close> has fired already); it never returns \<^verbatim>\<open>nil\<close>, and the handle
  is the registered provider in the world it ends in.
\<close>

theorem InitTestDb_registers_provider:
  assumes "\<not> HasDbProvider w"
  shows "InitTestDb c es_d es_m es_w dsn w =
           and_then (InitTestFixtures c es_d es_m es_w
                       (SetDbProvider \<lparr>Driver = ''mysql'', Dsn = dsn\<rparr> w))
             (\<lambda>w1. Returned (Some \<lparr>Driver = ''mysql'', Dsn = dsn\<rparr>) w1)
       \<and> dbProvider (SetDbProvider \<lparr>Driver = ''mysql'', Dsn = dsn\<rparr> w) =
           Some \<lparr>Driver = ''mysql'', Dsn = dsn\<rparr>
       \<and> dbProvider (final (InitTestDb c es_d es_m es_w dsn w)) =
           Some \<lparr>Driver = ''mysql'', Dsn = dsn\<rparr>
       \<and> (\<forall>r w'. InitTestDb c es_d es_m es_w dsn w = Returned r w' \<longrightarrow>
             r = Some \<lparr>Driver = ''mysql'', Dsn = dsn\<rparr>)
       \<and> returned (InitTestDb c es_d es_m es_w dsn w) =
           returned (InitTestFixtures c es_d es_m es_w
                       (SetDbProvider \<lparr>Driver = ''mysql'', Dsn = dsn\<rparr> w))
       \<and> (resetFixturesOnce w \<longrightarrow>
             InitTestDb c es_d es_m es_w dsn w =
               Returned (Some \<lparr>Driver = ''mysql'', Dsn = dsn\<rparr>)
                 (SetDbProvider \<lparr>Driver = ''mysql'', Dsn = dsn\<rparr> w))"
proof -
  define g where "g = \<lparr>Driver = ''mysql'', Dsn = dsn\<rparr>"
  define r where "r = InitTestFixtures c es_d es_m es_w (SetDbProvider g w)"
  have eq: "InitTestDb c es_d es_m es_w dsn w = and_then r (\<lambda>w1. Returned (Some g) w1)"
    using assms by (simp add: InitTestDb_def g_def r_def Let_def)
  have 1: "dbProvider (SetDbProvider g w) = Some g"
    using assms by (simp add: HasDbProvider_def SetDbProvider_def)
  have once: "resetFixturesOnce (SetDbProvider g w) = resetFixturesOnce w"
    by (simp add: SetDbProvider_def)
  have prov: "dbProvider (final r) = Some g"
    using InitTestFixtures_final [of c es_d es_m es_w "SetDbProvider g w"] 1
    by (simp add: r_def)
  have 2: "dbProvider (final (InitTestDb c es_d es_m es_w dsn w)) = Some g"
    unfolding eq using prov by (cases r) simp_all
  have 3: "\<forall>v w'. InitTestDb c es_d es_m es_w dsn w = Returned v w' \<longrightarrow> v = Some g"
    unfolding eq by (cases r) auto
  have 4: "returned (InitTestDb c es_d es_m es_w dsn w) = returned r"
    unfolding eq by (cases r) simp_all
  have 5: "resetFixturesOnce w \<longrightarrow>
             InitTestDb c es_d es_m es_w dsn w = Returned (Some g) (SetDbProvider g w)"
    unfolding eq using once by (simp add: r_def InitTestFixtures_def)
  from eq 1 2 3 4 5 show ?thesis unfolding g_def r_def by blast
qed

theorem InitTestDb_registers_provider_witness:
  "returned (InitTestDb sim_collab [(''lenses'', Lens), (''cameras'', Camera)]
       [(''cameras'', Camera), (''lenses'', Lens)] [(''lenses'', Lens), (''cameras'', Camera)]
       ''root:root@tcp(db:3306)/test'' (start (sim_db\<lparr>tables := [Camera]\<rparr>)))
   \<and> dbProvider (final (InitTestDb sim_collab [(''lenses'', Lens), (''cameras'', Camera)]
       [(''cameras'', Camera), (''lenses'', Lens)] [(''lenses'', Lens), (''cameras'', Camera)]
       ''root:root@tcp(db:3306)/test'' (start (sim_db\<lparr>tables := [Camera]\<rparr>)))) =
     Some \<lparr>Driver = ''mysql'', Dsn = ''root:root@tcp(db:3306)/test''\<rparr>"
proof -
  let ?d = "[(''lenses'', Lens), (''cameras'', Camera)]"
  let ?m = "[(''cameras'', Camera), (''lenses'', Lens)]"
  let ?w = "start (sim_db\<lparr>tables := [Camera]\<rparr>)"
  have n: "\<not> HasDbProvider ?w" by (simp add: start_def HasDbProvider_def)
  have r: "returned (InitTestDb sim_collab ?d ?m ?d ''root:root@tcp(db:3306)/test'' ?w)"
    unfolding sim_init_run by simp
  from InitTestDb_registers_provider [OF n, of sim_collab ?d ?m ?d "''root:root@tcp(db:3306)/test''"]
  have "dbProvider (final (InitTestDb sim_collab ?d ?m ?d ''root:root@tcp(db:3306)/test'' ?w)) =
     Some \<lparr>Driver = ''mysql'', Dsn = ''root:root@tcp(db:3306)/test''\<rparr>"
    by blast
  with r show ?thesis by (simp only: simp_thms)
qed

end
